theory Spec2Isabelle
  imports Main "HOL-Library.Char_ord"
begin

section \<open>The URL validator\<close>

text \<open>
  Every variant of the server carries the same validator:
  \<^verbatim>\<open>
  func isYouTubeURL(u string) bool {
      parsed, err := url.Parse(u)
      if err != nil { return false }
      host := parsed.Hostname()
      return host == "youtube.com" || host == "www.youtube.com" ||
             host == "youtu.be" || host == "music.youtube.com"
  }
  \<close>
  \<open>url.Parse\<close> and \<open>URL.Hostname\<close> belong to Go's standard library (package
  \<open>net/url\<close>, as of Go 1.23, the version the README names), not to the repository. They
  are modelled below function by function, under the names the library gives them, on
  byte strings (\<open>string\<close> is a list of 8-bit characters, as Go's \<open>string\<close> is a
  sequence of bytes). The fields of \<open>URL\<close> that the validator never reads and that
  cannot make \<open>Parse\<close> fail (\<open>User\<close>, \<open>RawPath\<close>, \<open>OmitHost\<close>, \<open>RawFragment\<close>) are left
  out of the record; the checks that compute them and can fail are kept.
\<close>

subsection \<open>Package strings\<close>

definition strings_HasPrefix :: "string \<Rightarrow> string \<Rightarrow> bool" where
  "strings_HasPrefix s p = (take (length p) s = p)"

definition strings_HasSuffix :: "string \<Rightarrow> string \<Rightarrow> bool" where
  "strings_HasSuffix s p = (length p \<le> length s \<and> drop (length s - length p) s = p)"

text \<open>\<open>strings.Index\<close>: the first position of \<open>sep\<close>, \<open>None\<close> for Go's \<open>-1\<close>.\<close>

fun strings_Index :: "string \<Rightarrow> string \<Rightarrow> nat option" where
  "strings_Index [] sep = (if sep = [] then Some 0 else None)"
| "strings_Index (c # cs) sep =
     (if strings_HasPrefix (c # cs) sep then Some 0
      else map_option Suc (strings_Index cs sep))"

text \<open>\<open>strings.LastIndex\<close>: the last position of \<open>sep\<close>.\<close>

definition strings_LastIndex :: "string \<Rightarrow> string \<Rightarrow> nat option" where
  "strings_LastIndex s sep =
     (case strings_Index (rev s) (rev sep) of
        None \<Rightarrow> None
      | Some i \<Rightarrow> Some (length s - length sep - i))"

definition strings_Contains :: "string \<Rightarrow> string \<Rightarrow> bool" where
  "strings_Contains s sub = (strings_Index s sub \<noteq> None)"

text \<open>\<open>strings.Cut\<close>: the text before and after the first \<open>sep\<close>, and whether it was found.\<close>

definition strings_Cut :: "string \<Rightarrow> string \<Rightarrow> string \<times> string \<times> bool" where
  "strings_Cut s sep =
     (case strings_Index s sep of
        Some i \<Rightarrow> (take i s, drop (i + length sep) s, True)
      | None \<Rightarrow> (s, [], False))"

text \<open>\<open>strings.Count\<close> for a one-byte separator.\<close>

definition strings_CountByte :: "string \<Rightarrow> char \<Rightarrow> nat" where
  "strings_CountByte s c = length (filter (\<lambda>d. d = c) s)"

text \<open>A byte within a range of bytes, as in Go's \<open>lo <= c && c <= hi\<close>.\<close>

definition in_range :: "char \<Rightarrow> char \<Rightarrow> char \<Rightarrow> bool" where
  "in_range lo hi c = (lo \<le> c \<and> c \<le> hi)"

text \<open>\<open>strings.ToLower\<close> on the ASCII letters (a scheme holds nothing else).\<close>

definition toLowerByte :: "char \<Rightarrow> char" where
  "toLowerByte c =
     (if in_range CHR ''A'' CHR ''Z'' c then char_of (of_char c + (32::nat)) else c)"

definition strings_ToLower :: "string \<Rightarrow> string" where
  "strings_ToLower s = map toLowerByte s"

subsection \<open>Package net/url\<close>

datatype url_error =
    ErrorString string
  | EscapeError string
  | InvalidHostError string

datatype encoding =
    encodePath
  | encodePathSegment
  | encodeHost
  | encodeZone
  | encodeUserPassword
  | encodeQueryComponent
  | encodeFragment

record URL =
  Scheme :: string
  Opaque :: string
  Host :: string
  Path :: string
  ForceQuery :: bool
  RawQuery :: string
  Fragment :: string

definition new_URL :: URL where
  "new_URL = \<lparr>Scheme = [], Opaque = [], Host = [], Path = [], ForceQuery = False,
               RawQuery = [], Fragment = []\<rparr>"

definition ishex :: "char \<Rightarrow> bool" where
  "ishex c = (in_range CHR ''0'' CHR ''9'' c \<or> in_range CHR ''a'' CHR ''f'' c
              \<or> in_range CHR ''A'' CHR ''F'' c)"

definition unhex :: "char \<Rightarrow> nat" where
  "unhex c =
     (if in_range CHR ''0'' CHR ''9'' c then of_char c - of_char CHR ''0''
      else if in_range CHR ''a'' CHR ''f'' c then of_char c - of_char CHR ''a'' + 10
      else if in_range CHR ''A'' CHR ''F'' c then of_char c - of_char CHR ''A'' + 10
      else 0)"

definition isAlnum :: "char \<Rightarrow> bool" where
  "isAlnum c = (in_range CHR ''a'' CHR ''z'' c \<or> in_range CHR ''A'' CHR ''Z'' c
                \<or> in_range CHR ''0'' CHR ''9'' c)"

text \<open>
  \<open>shouldEscape(c, mode)\<close>: the unreserved characters first, then what a host may hold
  unescaped, then the reserved characters mode by mode, then the marks a fragment
  allows; everything else must be escaped.
\<close>

definition shouldEscape :: "char \<Rightarrow> encoding \<Rightarrow> bool" where
  "shouldEscape c mode =
     (if isAlnum c then False
      else if (mode = encodeHost \<or> mode = encodeZone)
              \<and> (c \<in> set ''!$&()*+,;=:[]<>'' \<or> c = CHR 0x27 \<or> c = CHR 0x22) then False
      else if c \<in> set ''-_.~'' then False
      else if c \<in> set ''$&+,/:;=?@'' \<and> mode = encodePath then c = CHR ''?''
      else if c \<in> set ''$&+,/:;=?@'' \<and> mode = encodePathSegment
        then c = CHR ''/'' \<or> c = CHR '';'' \<or> c = CHR '','' \<or> c = CHR ''?''
      else if c \<in> set ''$&+,/:;=?@'' \<and> mode = encodeUserPassword
        then c = CHR ''@'' \<or> c = CHR ''/'' \<or> c = CHR ''?'' \<or> c = CHR '':''
      else if c \<in> set ''$&+,/:;=?@'' \<and> mode = encodeQueryComponent then True
      else if c \<in> set ''$&+,/:;=?@'' \<and> mode = encodeFragment then False
      else if mode = encodeFragment \<and> c \<in> set ''!()*'' then False
      else True)"

text \<open>
  \<open>unescape(s, mode)\<close>, first loop: every \<open>%\<close> is followed by two hex digits; in a
  host only bytes from 0x80 up may be escaped (and \<open>%25\<close>); in a zone an escaped byte
  must be one a host could hold, a space or \<open>%25\<close>; a host or zone holds no ASCII byte
  that would need escaping. \<open>None\<close> when the string passes.
\<close>

fun unescape_check :: "string \<Rightarrow> encoding \<Rightarrow> url_error option" where
  "unescape_check [] mode = None"
| "unescape_check (c # cs) mode =
     (if c = CHR ''%'' then
        (case cs of
           a # b # rest \<Rightarrow>
             if \<not> ishex a \<or> \<not> ishex b then Some (EscapeError [c, a, b])
             else if mode = encodeHost \<and> unhex a < 8 \<and> [c, a, b] \<noteq> ''%25''
               then Some (EscapeError [c, a, b])
             else if mode = encodeZone \<and> [c, a, b] \<noteq> ''%25''
                     \<and> char_of (16 * unhex a + unhex b) \<noteq> CHR '' ''
                     \<and> shouldEscape (char_of (16 * unhex a + unhex b)) encodeHost
               then Some (EscapeError [c, a, b])
             else unescape_check rest mode
         | _ \<Rightarrow> Some (EscapeError (c # cs)))
      else if c = CHR ''+'' then unescape_check cs mode
      else if (mode = encodeHost \<or> mode = encodeZone) \<and> c < CHR 0x80
              \<and> shouldEscape c encodeHost
        then Some (InvalidHostError [c])
      else unescape_check cs mode)"

text \<open>\<open>unescape\<close>, second loop: the decoding of a string that passed the first.\<close>

fun unescape_decode :: "string \<Rightarrow> encoding \<Rightarrow> string" where
  "unescape_decode [] mode = []"
| "unescape_decode (c # cs) mode =
     (if c = CHR ''%'' then
        (case cs of
           a # b # rest \<Rightarrow> char_of (16 * unhex a + unhex b) # unescape_decode rest mode
         | _ \<Rightarrow> [])
      else if c = CHR ''+'' then
        (if mode = encodeQueryComponent then CHR '' '' else CHR ''+'') # unescape_decode cs mode
      else c # unescape_decode cs mode)"

definition unescape :: "string \<Rightarrow> encoding \<Rightarrow> url_error + string" where
  "unescape s mode =
     (case unescape_check s mode of
        Some e \<Rightarrow> Inl e
      | None \<Rightarrow> Inr (unescape_decode s mode))"

definition stringContainsCTLByte :: "string \<Rightarrow> bool" where
  "stringContainsCTLByte s = (\<exists>b \<in> set s. b < CHR '' '' \<or> b = CHR 0x7F)"

text \<open>
  \<open>getScheme\<close>: the scheme before the first \<open>:\<close> when every byte before it is a letter,
  or past the first byte a digit, \<open>+\<close>, \<open>-\<close> or \<open>.\<close>; a leading \<open>:\<close> is an error; any
  other byte ends the search with no scheme. The first argument is the loop index.
\<close>

fun getScheme_from :: "nat \<Rightarrow> string \<Rightarrow> string \<Rightarrow> url_error + (string \<times> string)" where
  "getScheme_from i rawURL [] = Inr ([], rawURL)"
| "getScheme_from i rawURL (c # cs) =
     (if in_range CHR ''a'' CHR ''z'' c \<or> in_range CHR ''A'' CHR ''Z'' c
        then getScheme_from (Suc i) rawURL cs
      else if in_range CHR ''0'' CHR ''9'' c \<or> c = CHR ''+'' \<or> c = CHR ''-'' \<or> c = CHR ''.''
        then (if i = 0 then Inr ([], rawURL) else getScheme_from (Suc i) rawURL cs)
      else if c = CHR '':''
        then (if i = 0 then Inl (ErrorString ''missing protocol scheme'')
              else Inr (take i rawURL, drop (Suc i) rawURL))
      else Inr ([], rawURL))"

definition getScheme :: "string \<Rightarrow> url_error + (string \<times> string)" where
  "getScheme rawURL = getScheme_from 0 rawURL rawURL"

definition validOptionalPort :: "string \<Rightarrow> bool" where
  "validOptionalPort port =
     (case port of
        [] \<Rightarrow> True
      | c # ds \<Rightarrow> c = CHR '':'' \<and> (\<forall>b \<in> set ds. in_range CHR ''0'' CHR ''9'' b))"

text \<open>
  \<open>parseHost\<close>: a bracketed literal needs its \<open>]\<close> and after it an optional port; a zone
  (from the first \<open>%25\<close> inside the brackets) is unescaped by the zone's rules;
  otherwise what follows the last \<open>:\<close> must be a port; then the host is unescaped.
\<close>

definition parseHost :: "string \<Rightarrow> url_error + string" where
  "parseHost host =
     (if strings_HasPrefix host ''['' then
        (case strings_LastIndex host '']'' of
           None \<Rightarrow> Inl (ErrorString ''missing ] in host'')
         | Some i \<Rightarrow>
             if \<not> validOptionalPort (drop (Suc i) host)
               then Inl (ErrorString ''invalid port after host'')
             else
               (case strings_Index (take i host) ''%25'' of
                  Some zone \<Rightarrow>
                    (case unescape (take zone host) encodeHost of
                       Inl e \<Rightarrow> Inl e
                     | Inr host1 \<Rightarrow>
                         (case unescape (drop zone (take i host)) encodeZone of
                            Inl e \<Rightarrow> Inl e
                          | Inr host2 \<Rightarrow>
                              (case unescape (drop i host) encodeHost of
                                 Inl e \<Rightarrow> Inl e
                               | Inr host3 \<Rightarrow> Inr (host1 @ host2 @ host3))))
                | None \<Rightarrow> unescape host encodeHost))
      else
        (case strings_LastIndex host '':'' of
           Some i \<Rightarrow>
             if \<not> validOptionalPort (drop i host)
               then Inl (ErrorString ''invalid port after host'')
             else unescape host encodeHost
         | None \<Rightarrow> unescape host encodeHost))"

definition validUserinfo :: "string \<Rightarrow> bool" where
  "validUserinfo s =
     (\<forall>r \<in> set s. isAlnum r \<or> r \<in> set ''-._:~!$&()*+,;=%@'' \<or> r = CHR 0x27)"

text \<open>
  \<open>parseAuthority\<close>: the host is what follows the last \<open>@\<close>; the user information
  before it must be valid and unescape. Only the host is returned here.
\<close>

definition parseAuthority :: "string \<Rightarrow> url_error + string" where
  "parseAuthority authority =
     (case strings_LastIndex authority ''@'' of
        None \<Rightarrow> parseHost authority
      | Some i \<Rightarrow>
          (case parseHost (drop (Suc i) authority) of
             Inl e \<Rightarrow> Inl e
           | Inr host \<Rightarrow>
               let userinfo = take i authority in
               if \<not> validUserinfo userinfo then Inl (ErrorString ''net/url: invalid userinfo'')
               else if \<not> strings_Contains userinfo '':'' then
                 (case unescape userinfo encodeUserPassword of
                    Inl e \<Rightarrow> Inl e
                  | Inr _ \<Rightarrow> Inr host)
               else
                 (case strings_Cut userinfo '':'' of
                    (username, password, _) \<Rightarrow>
                      (case unescape username encodeUserPassword of
                         Inl e \<Rightarrow> Inl e
                       | Inr _ \<Rightarrow>
                           (case unescape password encodeUserPassword of
                              Inl e \<Rightarrow> Inl e
                            | Inr _ \<Rightarrow> Inr host)))))"

definition setPath :: "URL \<Rightarrow> string \<Rightarrow> url_error + URL" where
  "setPath u p =
     (case unescape p encodePath of
        Inl e \<Rightarrow> Inl e
      | Inr path \<Rightarrow> Inr (u\<lparr>Path := path\<rparr>))"

definition setFragment :: "URL \<Rightarrow> string \<Rightarrow> url_error + URL" where
  "setFragment u f =
     (case unescape f encodeFragment of
        Inl e \<Rightarrow> Inl e
      | Inr frag \<Rightarrow> Inr (u\<lparr>Fragment := frag\<rparr>))"

text \<open>
  \<open>parse(rawURL, viaRequest)\<close>: control bytes are refused; \<open>*\<close> is a path; the scheme
  is split off and lowered; the query is split off at the first \<open>?\<close>; a rootless rest is
  opaque under a scheme, and without one its first segment must hold no colon; an
  authority is read only after \<open>//\<close>; the rest is the path.
\<close>

definition parse :: "string \<Rightarrow> bool \<Rightarrow> url_error + URL" where
  "parse rawURL viaRequest =
     (if stringContainsCTLByte rawURL
        then Inl (ErrorString ''net/url: invalid control character in URL'')
      else if rawURL = [] \<and> viaRequest then Inl (ErrorString ''empty url'')
      else if rawURL = ''*'' then Inr (new_URL\<lparr>Path := ''*''\<rparr>)
      else
        (case getScheme rawURL of
           Inl e \<Rightarrow> Inl e
         | Inr (scheme, rest0) \<Rightarrow>
             let u0 = new_URL\<lparr>Scheme := strings_ToLower scheme\<rparr>;
                 force = (strings_HasSuffix rest0 ''?'' \<and> strings_CountByte rest0 CHR ''?'' = 1);
                 rest = (if force then butlast rest0 else fst (strings_Cut rest0 ''?''));
                 u = (if force then u0\<lparr>ForceQuery := True\<rparr>
                      else u0\<lparr>RawQuery := fst (snd (strings_Cut rest0 ''?''))\<rparr>)
             in
             if \<not> strings_HasPrefix rest ''/'' \<and> Scheme u \<noteq> [] then Inr (u\<lparr>Opaque := rest\<rparr>)
             else if \<not> strings_HasPrefix rest ''/'' \<and> viaRequest
               then Inl (ErrorString ''invalid URI for request'')
             else if \<not> strings_HasPrefix rest ''/''
                     \<and> strings_Contains (fst (strings_Cut rest ''/'')) '':''
               then Inl (ErrorString ''first path segment in URL cannot contain colon'')
             else if (Scheme u \<noteq> [] \<or> \<not> viaRequest \<and> \<not> strings_HasPrefix rest ''///'')
                     \<and> strings_HasPrefix rest ''//'' then
               (let authority0 = drop 2 rest;
                    authority = (case strings_Index authority0 ''/'' of
                                   Some i \<Rightarrow> take i authority0 | None \<Rightarrow> authority0);
                    rest' = (case strings_Index authority0 ''/'' of
                               Some i \<Rightarrow> drop i authority0 | None \<Rightarrow> [])
                in case parseAuthority authority of
                     Inl e \<Rightarrow> Inl e
                   | Inr host \<Rightarrow> setPath (u\<lparr>Host := host\<rparr>) rest')
             else setPath u rest))"

text \<open>\<open>url.Parse\<close>: the fragment is cut off at the first \<open>#\<close> and set after the rest parsed.\<close>

definition url_Parse :: "string \<Rightarrow> url_error + URL" where
  "url_Parse rawURL =
     (case strings_Cut rawURL ''#'' of
        (u, frag, _) \<Rightarrow>
          (case parse u False of
             Inl e \<Rightarrow> Inl e
           | Inr url \<Rightarrow> if frag = [] then Inr url else setFragment url frag))"

text \<open>
  \<open>splitHostPort\<close> and \<open>URL.Hostname\<close>: a valid port after the last \<open>:\<close> is dropped,
  then the square brackets around a literal.
\<close>

definition splitHostPort :: "string \<Rightarrow> string \<times> string" where
  "splitHostPort hostPort =
     (let hp = (case strings_LastIndex hostPort '':'' of
                  Some colon \<Rightarrow>
                    if validOptionalPort (drop colon hostPort)
                      then (take colon hostPort, drop (Suc colon) hostPort)
                    else (hostPort, [])
                | None \<Rightarrow> (hostPort, []));
          host = fst hp
      in (if strings_HasPrefix host ''['' \<and> strings_HasSuffix host '']''
            then butlast (tl host) else host, snd hp))"

definition Hostname :: "URL \<Rightarrow> string" where
  "Hostname u = fst (splitHostPort (Host u))"

subsection \<open>isYouTubeURL\<close>

definition isYouTubeURL :: "string \<Rightarrow> bool" where
  "isYouTubeURL u =
     (case url_Parse u of
        Inl err \<Rightarrow> False
      | Inr parsed \<Rightarrow>
          let host = Hostname parsed in
          host = ''youtube.com'' \<or> host = ''www.youtube.com'' \<or> host = ''youtu.be''
          \<or> host = ''music.youtube.com'')"

section \<open>Processes, responses and the trace of a handler\<close>

text \<open>
  A handler talks to two child processes, to the response writer and to the log. Its
  model is a function from what the outside world does (which calls fail, what each
  read of the transcoder's output returns, when the request's context is cancelled and
  what the clock says) to the sequence of calls the handler makes, in order, and
  whether it returns. A script of finitely many events stands for the outside world:
  a handler whose next \<open>Read\<close> has no event left is blocked in that read and has not
  returned.
\<close>

datatype proc = Ytdlp | Ffmpeg

text \<open>The error of a \<open>Read\<close>: \<open>nil\<close>, \<open>io.EOF\<close> or any other error.\<close>

datatype read_error = No_error | EOF | Read_error

text \<open>
  Who calls \<open>Process.Kill\<close>: the handler's own code on a failure path, the goroutine
  the handler starts to watch a context, or package \<open>os/exec\<close>, which kills a command
  made by \<open>exec.CommandContext(ctx, ...)\<close> when \<open>ctx\<close> is done before the command was
  waited for.
\<close>

datatype killer = Handler | Watcher | Exec_ctx

datatype action =
    SetHeader string string
  | HttpError string nat
  | StdoutPipe proc bool
  | Start proc string "string list" bool
  | Go_watcher
  | Kill killer proc
  | Write nat bool
  | WriteIgnored nat
  | Flush
  | Wait proc
  | Log string "nat list"
  | CombinedOutput string "string list"

text \<open>
  \<open>Write n ok\<close> is \<open>w.Write(buf[:n])\<close> and whether it returned no error;
  \<open>WriteIgnored n\<close> a write whose result the code discards; \<open>Start p path args ok\<close> is
  \<open>cmd.Start()\<close> of the command \<open>path args\<close>; \<open>Log f ns\<close> is \<open>log.Printf\<close> with format
  \<open>f\<close> (without the pictographs some variants put in front) and its integer arguments.
\<close>

datatype event =
    Read nat read_error bool
  | Request_done
  | Clock nat

text \<open>
  \<open>Read n err ok\<close>: the next \<open>Read\<close> returns \<open>n\<close> bytes and \<open>err\<close>, and the write of
  those bytes, if the handler attempts it, succeeds or not. \<open>Request_done\<close>: the
  request's context is cancelled (the client went away). \<open>Clock t\<close>: \<open>t\<close> seconds have
  passed since the handler was entered.
\<close>

record env =
  url_param :: string
  debug_param :: string
  pipe_ok :: "proc \<Rightarrow> bool"
  start_ok :: "proc \<Rightarrow> bool"
  is_flusher :: bool
  formats_len :: nat
  stderr_nonempty :: "proc \<Rightarrow> bool"
  script :: "event list"

datatype loop_exit = Break | Return_in_loop | Blocked

subsection \<open>Contexts\<close>

text \<open>
  \<open>r.Context()\<close> is done once the client is gone; \<open>context.WithTimeout(parent, d)\<close>
  is done once its parent is, or \<open>d\<close> seconds after it was made (the handlers make it
  on entry).
\<close>

datatype "context" = Request_context | WithTimeout "context" nat

record signals =
  gone :: bool
  clock :: nat

fun ctx_done :: "context \<Rightarrow> signals \<Rightarrow> bool" where
  "ctx_done Request_context s = gone s"
| "ctx_done (WithTimeout parent d) s = (ctx_done parent s \<or> d \<le> clock s)"

fun deliver :: "event \<Rightarrow> signals \<Rightarrow> signals" where
  "deliver Request_done s = s\<lparr>gone := True\<rparr>"
| "deliver (Clock t) s = s\<lparr>clock := max (clock s) t\<rparr>"
| "deliver (Read n err ok) s = s"

text \<open>What waits on a context runs its body once, when the context becomes done.\<close>

definition fire :: "context \<Rightarrow> signals \<Rightarrow> signals \<Rightarrow> action list \<Rightarrow> action list" where
  "fire c s s' body = (if \<not> ctx_done c s \<and> ctx_done c s' then body else [])"

definition start_signals :: signals where
  "start_signals = \<lparr>gone = False, clock = 0\<rparr>"

definition prepend :: "action list \<Rightarrow> action list \<times> 'a \<Rightarrow> action list \<times> 'a" where
  "prepend as r = (as @ fst r, snd r)"

subsection \<open>Reading a trace\<close>

text \<open>
  The processes running after a trace: started successfully, and neither killed nor
  waited for since.
\<close>

fun running :: "action list \<Rightarrow> proc set \<Rightarrow> proc set" where
  "running [] R = R"
| "running (Start p path args ok # tr) R = running tr (if ok then insert p R else R)"
| "running (Kill k p # tr) R = running tr (R - {p})"
| "running (Wait p # tr) R = running tr (R - {p})"
| "running (a # tr) R = running tr R"

fun is_HttpError :: "action \<Rightarrow> bool" where
  "is_HttpError (HttpError msg code) = True"
| "is_HttpError a = False"

fun is_Start :: "action \<Rightarrow> bool" where
  "is_Start (Start p path args ok) = True"
| "is_Start (CombinedOutput path args) = True"
| "is_Start a = False"

text \<open>
  The status the response writer commits: the code of the first \<open>http.Error\<close>, or 200
  with the first write; 200 as well when the handler returns with nothing written.
\<close>

fun committed_status :: "action list \<Rightarrow> nat option" where
  "committed_status [] = None"
| "committed_status (HttpError msg code # tr) = Some code"
| "committed_status (Write n ok # tr) = Some 200"
| "committed_status (WriteIgnored n # tr) = Some 200"
| "committed_status (a # tr) = committed_status tr"

definition response_status :: "action list \<times> bool \<Rightarrow> nat option" where
  "response_status r =
     (case committed_status (fst r) of
        Some code \<Rightarrow> Some code
      | None \<Rightarrow> if snd r then Some 200 else None)"

text \<open>
  The headers sent with the status: those set before it was committed. \<open>http.Error\<close>
  deletes \<open>Content-Length\<close> and sets two headers before it writes the status.
\<close>

fun committed_headers :: "action list \<Rightarrow> (string \<rightharpoonup> string) \<Rightarrow> (string \<rightharpoonup> string)" where
  "committed_headers [] h = h"
| "committed_headers (SetHeader k v # tr) h = committed_headers tr (h(k \<mapsto> v))"
| "committed_headers (HttpError msg code # tr) h =
     (h(''Content-Length'' := None))
      (''Content-Type'' \<mapsto> ''text/plain; charset=utf-8'',
       ''X-Content-Type-Options'' \<mapsto> ''nosniff'')"
| "committed_headers (Write n ok # tr) h = h"
| "committed_headers (WriteIgnored n # tr) h = h"
| "committed_headers (a # tr) h = committed_headers tr h"

text \<open>The bytes that reached the outbound stream: those of the writes that succeeded.\<close>

fun bytes_relayed :: "action list \<Rightarrow> nat" where
  "bytes_relayed [] = 0"
| "bytes_relayed (Write n ok # tr) = (if ok then n else 0) + bytes_relayed tr"
| "bytes_relayed (a # tr) = bytes_relayed tr"

text \<open>How many times a trace calls \<open>Kill\<close> on a process, by one caller and in all.\<close>

definition kills_by :: "killer \<Rightarrow> proc \<Rightarrow> action list \<Rightarrow> nat" where
  "kills_by k p tr = count_list tr (Kill k p)"

definition kills :: "proc \<Rightarrow> action list \<Rightarrow> nat" where
  "kills p tr = kills_by Handler p tr + kills_by Watcher p tr + kills_by Exec_ctx p tr"

section \<open>main.go\<close>

definition ytdlpArgs :: "string \<Rightarrow> string list" where
  "ytdlpArgs vidURL =
     [''-f'', ''bestaudio[ext=m4a]/bestaudio'', ''-o'', ''-'', ''--no-warnings'', ''--quiet'',
      vidURL]"

definition ffmpegArgs :: "string list" where
  "ffmpegArgs =
     [''-hide_banner'', ''-loglevel'', ''error'', ''-i'', ''pipe:0'', ''-f'', ''mp3'',
      ''-ac'', ''2'', ''-ar'', ''44100'', ''-b:a'', ''128k'', ''-vn'', ''pipe:1'']"

definition stream_headers :: "action list" where
  "stream_headers =
     [SetHeader ''Content-Type'' ''audio/mpeg'', SetHeader ''Cache-Control'' ''no-cache'',
      SetHeader ''Connection'' ''keep-alive'']"

text \<open>
  The relay loop of \<open>main.go\<close>, with what runs beside it: both commands were made with
  \<open>exec.CommandContext(ctx, ...)\<close> for \<open>ctx = context.WithTimeout(r.Context(), 45s)\<close>,
  and the goroutine waits on \<open>r.Context()\<close> and kills both.
  \<^verbatim>\<open>
  for {
      n, err := ffmpegStdout.Read(buf)
      if n > 0 {
          if _, writeErr := w.Write(buf[:n]); writeErr != nil {
              ytdlpCmd.Process.Kill(); ffmpegCmd.Process.Kill(); return
          }
          if f, ok := w.(http.Flusher); ok { f.Flush() }
      }
      if err != nil { break }
  }
  \<close>
\<close>

definition cmd_ctx :: "context" where
  "cmd_ctx = WithTimeout Request_context 45"

fun relay :: "bool \<Rightarrow> signals \<Rightarrow> event list \<Rightarrow> action list \<times> loop_exit" where
  "relay fl s [] = ([], Blocked)"
| "relay fl s (Read n err ok # es) =
     (if n > 0 then
        (if \<not> ok then ([Write n False, Kill Handler Ytdlp, Kill Handler Ffmpeg], Return_in_loop)
         else if err \<noteq> No_error then (Write n True # (if fl then [Flush] else []), Break)
         else prepend (Write n True # (if fl then [Flush] else [])) (relay fl s es))
      else if err \<noteq> No_error then ([], Break)
      else relay fl s es)"
| "relay fl s (ev # es) =
     prepend
       (fire cmd_ctx s (deliver ev s) [Kill Exec_ctx Ytdlp, Kill Exec_ctx Ffmpeg]
        @ fire Request_context s (deliver ev s) [Kill Watcher Ytdlp, Kill Watcher Ffmpeg])
       (relay fl (deliver ev s) es)"

text \<open>
  \<open>streamHandler(w, r)\<close> of \<open>main.go\<close>, step by step as the source has it: the
  \<open>url\<close> parameter must be there and pass the validator, else 400; the three headers
  are set; the extractor's pipe is made (else 500) and the extractor started (else
  503); the transcoder's pipe is made and the transcoder started (else the extractor
  is killed and the answer is 500); the goroutine is started; the loop runs; after a
  \<open>break\<close> both processes are waited for. The second component says whether the
  handler returned. The trace ends with the handler's last statement: the kills that
  come while the handler is inside a \<open>Wait\<close>, with the deferred \<open>cancel()\<close> and with the
  server's cancelling of the request's context after the return are added by
  \<open>streamHandler_lifetime\<close> below.
\<close>

definition streamHandler :: "env \<Rightarrow> action list \<times> bool" where
  "streamHandler e =
     (let vidURL = url_param e in
      if vidURL = [] then ([HttpError ''Missing ?url=...'' 400], True)
      else if \<not> isYouTubeURL vidURL
        then ([HttpError ''Only YouTube/YouTube Music URLs allowed'' 400], True)
      else if \<not> pipe_ok e Ytdlp then
        (stream_headers
         @ [StdoutPipe Ytdlp False, Log ''yt-dlp StdoutPipe failed: %v'' [],
            HttpError ''Internal error'' 500], True)
      else if \<not> start_ok e Ytdlp then
        (stream_headers
         @ [StdoutPipe Ytdlp True, Start Ytdlp ''yt-dlp'' (ytdlpArgs vidURL) False,
            Log ''yt-dlp failed to start: %v'' [], HttpError ''Audio fetch failed'' 503], True)
      else if \<not> pipe_ok e Ffmpeg then
        (stream_headers
         @ [StdoutPipe Ytdlp True, Start Ytdlp ''yt-dlp'' (ytdlpArgs vidURL) True,
            StdoutPipe Ffmpeg False, Kill Handler Ytdlp,
            Log ''ffmpeg StdoutPipe failed: %v'' [], HttpError ''Encoder setup failed'' 500],
         True)
      else if \<not> start_ok e Ffmpeg then
        (stream_headers
         @ [StdoutPipe Ytdlp True, Start Ytdlp ''yt-dlp'' (ytdlpArgs vidURL) True,
            StdoutPipe Ffmpeg True, Start Ffmpeg ''ffmpeg'' ffmpegArgs False,
            Kill Handler Ytdlp, Log ''ffmpeg failed to start: %v'' [],
            HttpError ''Encoding failed'' 500],
         True)
      else
        (case relay (is_flusher e) start_signals (script e) of
           (tr, ex) \<Rightarrow>
             (stream_headers
              @ [StdoutPipe Ytdlp True, Start Ytdlp ''yt-dlp'' (ytdlpArgs vidURL) True,
                 StdoutPipe Ffmpeg True, Start Ffmpeg ''ffmpeg'' ffmpegArgs True, Go_watcher]
              @ tr
              @ (if ex = Break then [Wait Ffmpeg, Wait Ytdlp] else []),
              ex \<noteq> Blocked)))"

section \<open>The variant with a credentials file and byte counting\<close>

text \<open>
  The first file of \<open>src/unnamed/part_000\<close>: \<open>streamHandler(ytDlpPath, ffmpegPath,
  cookiesPath)\<close>. Its commands are made with \<open>ctx := r.Context()\<close>, with no timeout,
  and its goroutine waits on the same context. It counts the bytes it reads in
  \<open>total\<close> (a Go \<open>int\<close>; the natural number \<open>total_bytes\<close> here, far from 64 bits
  at 64 KiB a read).
\<close>

definition listFormats_args :: "string \<Rightarrow> string \<Rightarrow> string list" where
  "listFormats_args cookiesPath vidURL =
     (let args = [''--list-formats''];
          args = (if cookiesPath \<noteq> [] then args @ [''--cookies'', cookiesPath] else args)
      in args @ [vidURL])"

definition ytdlpArgs_cookies :: "string \<Rightarrow> string \<Rightarrow> string list" where
  "ytdlpArgs_cookies cookiesPath vidURL =
     (let ytdlpArgs = [''-f'', ''worst'', ''-o'', ''-'', ''--no-warnings''];
          ytdlpArgs = (if cookiesPath \<noteq> [] then ytdlpArgs @ [''--cookies'', cookiesPath]
                       else ytdlpArgs)
      in ytdlpArgs @ [vidURL])"

definition ffmpegArgs_cookies :: "string list" where
  "ffmpegArgs_cookies =
     [''-i'', ''pipe:0'', ''-vn'', ''-f'', ''mp3'', ''-ac'', ''2'', ''-ar'', ''44100'',
      ''-b:a'', ''128k'', ''-loglevel'', ''warning'', ''pipe:1'']"

definition stream_headers_cookies :: "action list" where
  "stream_headers_cookies =
     stream_headers
     @ [SetHeader ''Accept-Ranges'' ''none'', SetHeader ''Transfer-Encoding'' ''chunked'']"

text \<open>
  \<^verbatim>\<open>
  total := 0
  for {
      n, err := ffmpegStdout.Read(buf)
      if n > 0 {
          total += n
          if _, e := w.Write(buf[:n]); e != nil {
              log.Printf("Client left after %d bytes", total)
              ytdlpCmd.Process.Kill(); ffmpegCmd.Process.Kill(); return
          }
          if flusher != nil { flusher.Flush() }
      }
      if err != nil {
          if err != io.EOF { log.Printf("Read error: %v", err) }
          break
      }
  }
  \<close>
  The loop returns its trace, how it ended and \<open>total\<close>.
\<close>

definition watcher_cookies :: "action list" where
  "watcher_cookies = [Kill Watcher Ytdlp, Kill Watcher Ffmpeg, Log ''Stream stopped: %s'' []]"

fun relay_cookies ::
  "bool \<Rightarrow> signals \<Rightarrow> nat \<Rightarrow> event list \<Rightarrow> action list \<times> loop_exit \<times> nat" where
  "relay_cookies fl s total_bytes [] = ([], Blocked, total_bytes)"
| "relay_cookies fl s total_bytes (Read n err ok # es) =
     (if n > 0 then
        (if \<not> ok then
           ([Write n False, Log ''Client left after %d bytes'' [total_bytes + n],
             Kill Handler Ytdlp, Kill Handler Ffmpeg], Return_in_loop, total_bytes + n)
         else if err \<noteq> No_error then
           (Write n True # (if fl then [Flush] else [])
            @ (if err \<noteq> EOF then [Log ''Read error: %v'' []] else []), Break, total_bytes + n)
         else prepend (Write n True # (if fl then [Flush] else []))
                (relay_cookies fl s (total_bytes + n) es))
      else if err \<noteq> No_error then
        (if err \<noteq> EOF then [Log ''Read error: %v'' []] else [], Break, total_bytes)
      else relay_cookies fl s total_bytes es)"
| "relay_cookies fl s total_bytes (ev # es) =
     prepend
       (fire Request_context s (deliver ev s) [Kill Exec_ctx Ytdlp, Kill Exec_ctx Ffmpeg]
        @ fire Request_context s (deliver ev s) watcher_cookies)
       (relay_cookies fl (deliver ev s) total_bytes es)"

definition streamHandler_cookies ::
  "string \<Rightarrow> string \<Rightarrow> string \<Rightarrow> env \<Rightarrow> action list \<times> bool" where
  "streamHandler_cookies ytDlpPath ffmpegPath cookiesPath e =
     (let vidURL = url_param e; debug = debug_param e in
      if vidURL = [] then ([HttpError ''Missing ?url=...'' 400], True)
      else if \<not> isYouTubeURL vidURL
        then ([HttpError ''Only YouTube/YouTube Music URLs allowed'' 400], True)
      else if debug = ''1'' \<or> debug = ''true'' then
        ([SetHeader ''Content-Type'' ''text/plain'',
          CombinedOutput ytDlpPath (listFormats_args cookiesPath vidURL),
          WriteIgnored 27, WriteIgnored (formats_len e)], True)
      else if \<not> pipe_ok e Ytdlp then
        (stream_headers_cookies
         @ [Log ''Starting stream for: %s'' [], StdoutPipe Ytdlp False,
            Log ''yt-dlp pipe error: %v'' [], HttpError ''Setup failed'' 500], True)
      else if \<not> pipe_ok e Ffmpeg then
        (stream_headers_cookies
         @ [Log ''Starting stream for: %s'' [], StdoutPipe Ytdlp True, StdoutPipe Ffmpeg False,
            Log ''ffmpeg pipe error: %v'' [], HttpError ''ffmpeg setup failed'' 500], True)
      else if \<not> start_ok e Ytdlp then
        (stream_headers_cookies
         @ [Log ''Starting stream for: %s'' [], StdoutPipe Ytdlp True, StdoutPipe Ffmpeg True,
            Start Ytdlp ytDlpPath (ytdlpArgs_cookies cookiesPath vidURL) False,
            Log ''yt-dlp start failed: %v'' [], HttpError ''yt-dlp failed'' 503], True)
      else if \<not> start_ok e Ffmpeg then
        (stream_headers_cookies
         @ [Log ''Starting stream for: %s'' [], StdoutPipe Ytdlp True, StdoutPipe Ffmpeg True,
            Start Ytdlp ytDlpPath (ytdlpArgs_cookies cookiesPath vidURL) True,
            Start Ffmpeg ffmpegPath ffmpegArgs_cookies False,
            Kill Handler Ytdlp, Log ''ffmpeg start failed: %v'' [],
            HttpError ''ffmpeg failed'' 500], True)
      else
        (case relay_cookies (is_flusher e) start_signals 0 (script e) of
           (tr, ex, total_bytes) \<Rightarrow>
             (stream_headers_cookies
              @ [Log ''Starting stream for: %s'' [], StdoutPipe Ytdlp True,
                 StdoutPipe Ffmpeg True,
                 Start Ytdlp ytDlpPath (ytdlpArgs_cookies cookiesPath vidURL) True,
                 Start Ffmpeg ffmpegPath ffmpegArgs_cookies True,
                 Log ''Streaming: %s'' [], Go_watcher]
              @ tr
              @ (if ex = Break then
                   [Wait Ffmpeg, Wait Ytdlp]
                   @ (if stderr_nonempty e Ytdlp then [Log ''yt-dlp stderr: %s'' []] else [])
                   @ (if stderr_nonempty e Ffmpeg then [Log ''ffmpeg stderr: %s'' []] else [])
                   @ (if total_bytes = 0
                        then [Log ''WARNING: Stream completed but sent 0 bytes!'' []] else [])
                   @ [Log ''Stream done: %s (%d bytes)'' [total_bytes]]
                 else []),
              ex \<noteq> Blocked)))"

text \<open>The byte count a trace reports when the client left, if it reports one.\<close>

fun reported_client_left :: "action list \<Rightarrow> nat option" where
  "reported_client_left [] = None"
| "reported_client_left (Log f ns # tr) =
     (if f = ''Client left after %d bytes'' then Some (hd ns) else reported_client_left tr)"
| "reported_client_left (a # tr) = reported_client_left tr"

section \<open>main2.go: one stage, with a credentials file\<close>


section \<open>Package streamer: StreamFromURL\<close>

text \<open>
  \<open>src/unnamed/part_001\<close>. \<open>StreamFromURL(ctx, w, ytURL)\<close> returns an error value:
  \<open>None\<close> below is \<open>nil\<close>, \<open>Some m\<close> the error whose message starts with \<open>m\<close>. Both
  commands and the goroutine use the caller's \<open>ctx\<close>.
  \<^verbatim>\<open>
  for {
      n, err := ffmpegStdout.Read(buf)
      if n > 0 {
          if _, writeErr := w.Write(buf[:n]); writeErr != nil {
              return fmt.Errorf("client disconnected")
          }
          if f, ok := w.(http.Flusher); ok { f.Flush() }
      }
      if err == io.EOF { break }
      if err != nil { return fmt.Errorf("ffmpeg read: %w", err) }
  }
  \<close>
\<close>

definition isValidYouTubeURL :: "string \<Rightarrow> bool" where
  "isValidYouTubeURL u =
     (case url_Parse u of
        Inl err \<Rightarrow> False
      | Inr parsed \<Rightarrow>
          let host = Hostname parsed in
          host = ''youtube.com'' \<or> host = ''www.youtube.com'' \<or> host = ''youtu.be''
          \<or> host = ''music.youtube.com'')"

definition ytdlpArgs_streamer :: "string \<Rightarrow> string list" where
  "ytdlpArgs_streamer ytURL =
     [''-f'', ''bestaudio[ext=m4a]/bestaudio'', ''--no-warnings'', ''--quiet'', ''-o'', ''-'',
      ytURL]"

datatype stream_exit = Broke | Returned "string option" | Blocked_in_read

fun relay_streamer ::
  "context \<Rightarrow> bool \<Rightarrow> signals \<Rightarrow> event list \<Rightarrow> action list \<times> stream_exit" where
  "relay_streamer ctx fl s [] = ([], Blocked_in_read)"
| "relay_streamer ctx fl s (Read n err ok # es) =
     (if n > 0 \<and> \<not> ok then ([Write n False], Returned (Some ''client disconnected''))
      else
        (let out = (if n > 0 then Write n True # (if fl then [Flush] else []) else []) in
         if err = EOF then (out, Broke)
         else if err \<noteq> No_error then (out, Returned (Some ''ffmpeg read''))
         else prepend out (relay_streamer ctx fl s es)))"
| "relay_streamer ctx fl s (ev # es) =
     prepend
       (fire ctx s (deliver ev s) [Kill Exec_ctx Ytdlp, Kill Exec_ctx Ffmpeg]
        @ fire ctx s (deliver ev s) [Kill Watcher Ytdlp, Kill Watcher Ffmpeg])
       (relay_streamer ctx fl (deliver ev s) es)"

definition StreamFromURL :: "context \<Rightarrow> env \<Rightarrow> action list \<times> string option option" where
  "StreamFromURL ctx e =
     (let ytURL = url_param e in
      if \<not> isValidYouTubeURL ytURL then ([], Some (Some ''invalid YouTube URL''))
      else if \<not> pipe_ok e Ytdlp then
        (stream_headers @ [StdoutPipe Ytdlp False], Some (Some ''yt-dlp stdout pipe''))
      else if \<not> pipe_ok e Ffmpeg then
        (stream_headers @ [StdoutPipe Ytdlp True, StdoutPipe Ffmpeg False],
         Some (Some ''ffmpeg stdout pipe''))
      else if \<not> start_ok e Ytdlp then
        (stream_headers
         @ [StdoutPipe Ytdlp True, StdoutPipe Ffmpeg True,
            Start Ytdlp ''yt-dlp'' (ytdlpArgs_streamer ytURL) False],
         Some (Some ''yt-dlp start''))
      else if \<not> start_ok e Ffmpeg then
        (stream_headers
         @ [StdoutPipe Ytdlp True, StdoutPipe Ffmpeg True,
            Start Ytdlp ''yt-dlp'' (ytdlpArgs_streamer ytURL) True,
            Start Ffmpeg ''ffmpeg'' ffmpegArgs False, Kill Handler Ytdlp],
         Some (Some ''ffmpeg start''))
      else
        (case relay_streamer ctx (is_flusher e) start_signals (script e) of
           (tr, ex) \<Rightarrow>
             (stream_headers
              @ [StdoutPipe Ytdlp True, StdoutPipe Ffmpeg True,
                 Start Ytdlp ''yt-dlp'' (ytdlpArgs_streamer ytURL) True,
                 Start Ffmpeg ''ffmpeg'' ffmpegArgs True, Go_watcher]
              @ tr
              @ (if ex = Broke then [Wait Ffmpeg, Wait Ytdlp] else []),
              case ex of
                Broke \<Rightarrow> Some None
              | Returned err \<Rightarrow> Some err
              | Blocked_in_read \<Rightarrow> None)))"

section \<open>Vocabulary of the properties\<close>

text \<open>
  An environment in which nothing fails during setup: both pipes are made, both
  processes start, the response writer can flush.
\<close>

definition healthy_env :: "string \<Rightarrow> event list \<Rightarrow> env" where
  "healthy_env u es =
     \<lparr>url_param = u, debug_param = [], pipe_ok = (\<lambda>p. True), start_ok = (\<lambda>p. True),
      is_flusher = True, formats_len = 0, stderr_nonempty = (\<lambda>p. False), script = es\<rparr>"

text \<open>\<open>precedes a P tr\<close>: \<open>a\<close> occurs in \<open>tr\<close> before the first action that satisfies \<open>P\<close>.\<close>

definition precedes :: "action \<Rightarrow> (action \<Rightarrow> bool) \<Rightarrow> action list \<Rightarrow> bool" where
  "precedes a P tr = (a \<in> set (takeWhile (\<lambda>x. \<not> P x) tr))"


text \<open>
  An event after which every relay loop goes on to its next read: a signal, or a read
  with no error whose bytes, if any, were written.
\<close>

fun keeps_running :: "event \<Rightarrow> bool" where
  "keeps_running (Read n err ok) = (err = No_error \<and> (n = 0 \<or> ok))"
| "keeps_running ev = True"

fun read_bytes :: "event \<Rightarrow> nat" where
  "read_bytes (Read n err ok) = n"
| "read_bytes ev = 0"

fun touches_status :: "action \<Rightarrow> bool" where
  "touches_status (SetHeader k v) = True"
| "touches_status (HttpError msg code) = True"
| "touches_status a = False"

definition allowed_hosts :: "string list" where
  "allowed_hosts = [''youtube.com'', ''www.youtube.com'', ''youtu.be'', ''music.youtube.com'']"

text \<open>Setup succeeds: the URL is accepted, both pipes are made and both processes start.\<close>

definition setup_ok :: "env \<Rightarrow> bool" where
  "setup_ok e =
     (url_param e \<noteq> [] \<and> isYouTubeURL (url_param e) \<and> pipe_ok e Ytdlp \<and> pipe_ok e Ffmpeg
      \<and> start_ok e Ytdlp \<and> start_ok e Ffmpeg)"

text \<open>The request does not ask the variant with a credentials file for its format list.\<close>

definition debug_off :: "env \<Rightarrow> bool" where
  "debug_off e = (debug_param e \<noteq> ''1'' \<and> debug_param e \<noteq> ''true'')"

text \<open>
  An event that makes \<open>main.go\<close>'s command context done: the request is cancelled, or
  the clock reaches the 45 seconds of the timeout.
\<close>

fun cancels_cmd :: "event \<Rightarrow> bool" where
  "cancels_cmd Request_done = True"
| "cancels_cmd (Clock t) = (45 \<le> t)"
| "cancels_cmd (Read n err ok) = False"

text \<open>
  The events a relay loop gets to see before the read that ends it, and whether that
  read is one whose write fails.
\<close>

definition seen :: "event list \<Rightarrow> event list" where
  "seen es = takeWhile keeps_running es"

definition write_fails :: "event list \<Rightarrow> bool" where
  "write_fails es =
     (case dropWhile keeps_running es of
        Read n err ok # rest \<Rightarrow> 0 < n \<and> \<not> ok
      | _ \<Rightarrow> False)"

section \<open>The whole life of a request to main.go\<close>

text \<open>
  The trace of \<open>streamHandler\<close> holds the handler's own statements and what happens beside
  its loop. Processes are also killed beside the two \<open>Wait\<close>s and after the handler has
  returned, by two parties that \<open>main.go\<close> sets up:
  \<^item> \<open>os/exec\<close> watches the context of a command made with \<open>exec.CommandContext\<close> from
    its \<open>Start\<close> until its \<open>Wait\<close> returns, and kills the process when the context is
    done in between. The command context of \<open>main.go\<close> is done when the request is
    cancelled, when 45 seconds have passed, and when the deferred \<open>cancel()\<close> runs at
    the handler's return.
  \<^item> The goroutine of \<open>main.go\<close> waits for \<open>r.Context()\<close> and then kills both processes.
    \<open>net/http\<close> cancels that context when the client's connection is closed and, at the
    latest, when the handler has returned.

  A process that \<open>os/exec\<close> still watches: it was started and the trace has no \<open>Wait\<close>
  for it.
\<close>

fun started :: "proc \<Rightarrow> action \<Rightarrow> bool" where
  "started p (Start q path args ok) = (q = p \<and> ok)"
| "started p a = False"

definition unwaited :: "action list \<Rightarrow> proc list" where
  "unwaited tr = filter (\<lambda>p. list_ex (started p) tr \<and> Wait p \<notin> set tr) [Ytdlp, Ffmpeg]"

definition exec_kills :: "proc list \<Rightarrow> action list" where
  "exec_kills ps = map (Kill Exec_ctx) ps"

definition watcher_kills :: "action list" where
  "watcher_kills = [Kill Watcher Ytdlp, Kill Watcher Ffmpeg]"

text \<open>
  The handler is blocked in \<open>Wait\<close> while the events \<open>w\<close> arrive; \<open>os/exec\<close> watches the
  processes \<open>ps\<close>. As beside the loop, \<open>os/exec\<close> kills them when the command context
  becomes done and the goroutine kills both when the request's context becomes done.
\<close>

fun waiting :: "proc list \<Rightarrow> signals \<Rightarrow> event list \<Rightarrow> action list" where
  "waiting ps s [] = []"
| "waiting ps s (ev # es) =
     fire cmd_ctx s (deliver ev s) (exec_kills ps)
     @ fire Request_context s (deliver ev s) watcher_kills
     @ waiting ps (deliver ev s) es"

text \<open>
  The handler returns after the trace \<open>tr\<close>, the signals being \<open>s\<close>. The deferred
  \<open>cancel()\<close> runs: unless the command context was done before, \<open>os/exec\<close> kills every
  process it still watches. Then \<open>net/http\<close> cancels the request's context: unless it
  was cancelled before, the goroutine, if it was started, kills both processes.
\<close>

definition at_return :: "action list \<Rightarrow> signals \<Rightarrow> action list" where
  "at_return tr s =
     (if ctx_done cmd_ctx s then [] else exec_kills (unwaited tr))
     @ (if Go_watcher \<in> set tr \<and> \<not> gone s then watcher_kills else [])"

text \<open>
  The trace of a request to \<open>main.go\<close>'s handler from its first statement until the
  request's context has been cancelled. The script of the environment is what the loop
  meets; \<open>w1\<close> are the events that arrive while the handler is in \<open>ffmpegCmd.Wait()\<close>,
  \<open>w2\<close> those that arrive while it is in \<open>ytdlpCmd.Wait()\<close>. The handler's own actions are
  those of \<open>streamHandler\<close>, in the same order. A handler that never leaves its loop has
  no more than the trace of its loop. After a failed write the handler returns with
  both processes watched; after a \<open>break\<close> the first \<open>Wait\<close> ends the watch over the
  transcoder and the second the watch over the extractor.
\<close>

definition streamHandler_lifetime :: "env \<Rightarrow> event list \<Rightarrow> event list \<Rightarrow> action list" where
  "streamHandler_lifetime e w1 w2 =
     (if \<not> setup_ok e then fst (streamHandler e) @ at_return (fst (streamHandler e)) start_signals
      else
        (case relay (is_flusher e) start_signals (script e) of
           (tr, ex) \<Rightarrow>
             let in_loop =
                   stream_headers
                   @ [StdoutPipe Ytdlp True,
                      Start Ytdlp ''yt-dlp'' (ytdlpArgs (url_param e)) True,
                      StdoutPipe Ffmpeg True, Start Ffmpeg ''ffmpeg'' ffmpegArgs True,
                      Go_watcher]
                   @ tr;
                 s = fold deliver (seen (script e)) start_signals;
                 s1 = fold deliver w1 s;
                 s2 = fold deliver w2 s1
             in (case ex of
                   Blocked \<Rightarrow> in_loop
                 | Return_in_loop \<Rightarrow> in_loop @ at_return in_loop s
                 | Break \<Rightarrow>
                     in_loop @ waiting [Ytdlp, Ffmpeg] s w1 @ [Wait Ffmpeg]
                     @ waiting [Ytdlp] s1 w2 @ [Wait Ytdlp]
                     @ at_return (in_loop @ [Wait Ffmpeg, Wait Ytdlp]) s2)))"

text \<open>
  The kills of a process that come after its \<open>Wait\<close> has returned, when the process has
  been reaped.
\<close>

definition late_kills :: "proc \<Rightarrow> action list \<Rightarrow> nat" where
  "late_kills p tr = kills p (drop 1 (dropWhile (\<lambda>a. a \<noteq> Wait p) tr))"

text \<open>The actions of the handler itself: all but the kills of \<open>os/exec\<close> and the goroutine.\<close>

fun own_action :: "action \<Rightarrow> bool" where
  "own_action (Kill k p) = (k = Handler)"
| "own_action a = True"

section \<open>Properties\<close>

subsection \<open>Helper facts\<close>

lemma valid_example: "isYouTubeURL ''https://youtu.be/abc123''"
  by code_simp

lemma fst_prepend [simp]: "fst (prepend as r) = as @ fst r"
  by (simp add: prepend_def)

lemma snd_prepend [simp]: "snd (prepend as r) = snd r"
  by (simp add: prepend_def)

lemma prepend_prepend [simp]: "prepend as (prepend bs r) = prepend (as @ bs) r"
  by (simp add: prepend_def)

lemma prepend_Nil [simp]: "prepend [] r = r"
  by (simp add: prepend_def)

lemma valid_same: "isValidYouTubeURL u = isYouTubeURL u"
  by (simp add: isValidYouTubeURL_def isYouTubeURL_def)

text \<open>Counting bytes and kills over a trace put together from parts.\<close>

lemma bytes_relayed_append [simp]:
  "bytes_relayed (tr @ tr') = bytes_relayed tr + bytes_relayed tr'"
  by (induction tr rule: bytes_relayed.induct) simp_all

lemma kills_by_Nil [simp]: "kills_by k p [] = 0"
  by (simp add: kills_by_def)

lemma kills_by_append [simp]: "kills_by k p (tr @ tr') = kills_by k p tr + kills_by k p tr'"
  by (simp add: kills_by_def)

lemma kills_by_Cons:
  "kills_by k p (a # tr) = (if a = Kill k p then 1 else 0) + kills_by k p tr"
  by (simp add: kills_by_def)

text \<open>The status and the headers of a trace put together from parts.\<close>

lemma committed_status_append:
  "committed_status (tr @ tr') =
     (case committed_status tr of Some c \<Rightarrow> Some c | None \<Rightarrow> committed_status tr')"
  by (induction tr rule: committed_status.induct) simp_all

lemma no_status_no_bytes: "committed_status tr = None \<Longrightarrow> bytes_relayed tr = 0"
  by (induction tr rule: committed_status.induct) simp_all

lemma committed_headers_untouched:
  "list_all (\<lambda>a. \<not> touches_status a) tr \<Longrightarrow> committed_headers tr h = h"
  by (induction tr h rule: committed_headers.induct) simp_all

text \<open>
  The relay loops read their script from left to right: after events that keep the loop
  running, the loop is where it would be had it started on the rest, with the signals
  those events delivered.
\<close>

lemma relay_append:
  "list_all keeps_running pre \<Longrightarrow>
   relay fl s (pre @ rest) = prepend (fst (relay fl s pre)) (relay fl (fold deliver pre s) rest)"
proof (induction pre arbitrary: s)
  case Nil
  show ?case by simp
next
  case (Cons ev pre)
  then show ?case by (cases ev) auto
qed

lemma relay_streamer_append:
  "list_all keeps_running pre \<Longrightarrow>
   relay_streamer ctx fl s (pre @ rest) =
     prepend (fst (relay_streamer ctx fl s pre))
       (relay_streamer ctx fl (fold deliver pre s) rest)"
proof (induction pre arbitrary: s)
  case Nil
  show ?case by simp
next
  case (Cons ev pre)
  then show ?case by (cases ev) (auto simp: Let_def)
qed

lemma relay_cookies_append:
  "list_all keeps_running pre \<Longrightarrow>
   relay_cookies fl s t (pre @ rest) =
     prepend (fst (relay_cookies fl s t pre))
       (relay_cookies fl (fold deliver pre s) (t + sum_list (map read_bytes pre)) rest)"
proof (induction pre arbitrary: s t)
  case Nil
  show ?case by simp
next
  case (Cons ev pre)
  then show ?case by (cases ev) (auto simp: add.assoc)
qed

lemma relay_blocked: "list_all keeps_running pre \<Longrightarrow> snd (relay fl s pre) = Blocked"
proof (induction pre arbitrary: s)
  case Nil
  show ?case by simp
next
  case (Cons ev pre)
  then show ?case by (cases ev) auto
qed

lemma relay_streamer_blocked:
  "list_all keeps_running pre \<Longrightarrow> snd (relay_streamer ctx fl s pre) = Blocked_in_read"
proof (induction pre arbitrary: s)
  case Nil
  show ?case by simp
next
  case (Cons ev pre)
  then show ?case by (cases ev) (auto simp: Let_def)
qed

lemma relay_cookies_blocked:
  "list_all keeps_running pre \<Longrightarrow> fst (snd (relay_cookies fl s t pre)) = Blocked"
proof (induction pre arbitrary: s t)
  case Nil
  show ?case by simp
next
  case (Cons ev pre)
  then show ?case by (cases ev) auto
qed



lemma relay_cookies_bytes:
  "list_all keeps_running pre \<Longrightarrow>
   bytes_relayed (fst (relay_cookies fl s t pre)) = sum_list (map read_bytes pre)"
proof (induction pre arbitrary: s t)
  case Nil
  show ?case by simp
next
  case (Cons ev pre)
  then show ?case by (cases ev) (auto simp: fire_def watcher_cookies_def)
qed

text \<open>\<open>main.go\<close>'s loop does not look at what kind of error a read returned.\<close>

lemma relay_blind_to_error_kind:
  "relay fl s (pre @ Read n Read_error ok # es) = relay fl s (pre @ Read n EOF ok # es')"
proof (induction pre arbitrary: s)
  case Nil
  show ?case by simp
next
  case (Cons ev pre)
  then show ?case by (cases ev) auto
qed

text \<open>What \<open>main.go\<close>'s loop leaves of the status and the headers.\<close>

lemma relay_status:
  "committed_status (fst (relay fl s es)) = None
   \<or> committed_status (fst (relay fl s es)) = Some 200"
proof (induction es arbitrary: s)
  case Nil
  show ?case by simp
next
  case (Cons ev es)
  then show ?case
    by (cases ev) (auto simp: committed_status_append fire_def split: option.split)
qed

lemma relay_untouched: "list_all (\<lambda>a. \<not> touches_status a) (fst (relay fl s es))"
proof (induction es arbitrary: s)
  case Nil
  show ?case by simp
next
  case (Cons ev es)
  then show ?case by (cases ev) (auto simp: fire_def)
qed

text \<open>The kills of \<open>main.go\<close>'s loop, caller by caller.\<close>

lemma relay_kills_Handler:
  "kills_by Handler p (fst (relay fl s es)) = (if write_fails es then 1 else 0)"
proof (induction es arbitrary: s)
  case Nil
  show ?case by (simp add: write_fails_def)
next
  case (Cons ev es)
  show ?case
  proof (cases ev)
    case (Read n err ok)
    with Cons show ?thesis by (cases p) (auto simp: write_fails_def kills_by_Cons)
  next
    case Request_done
    with Cons show ?thesis by (auto simp: write_fails_def kills_by_Cons fire_def)
  next
    case (Clock t)
    with Cons show ?thesis by (auto simp: write_fails_def kills_by_Cons fire_def)
  qed
qed

lemma relay_kills_Watcher:
  "kills_by Watcher p (fst (relay fl s es)) =
     (if \<not> gone s \<and> Request_done \<in> set (seen es) then 1 else 0)"
proof (induction es arbitrary: s)
  case Nil
  show ?case by (simp add: seen_def)
next
  case (Cons ev es)
  show ?case
  proof (cases ev)
    case (Read n err ok)
    with Cons show ?thesis by (auto simp: seen_def kills_by_Cons)
  next
    case Request_done
    with Cons show ?thesis by (cases p) (auto simp: seen_def kills_by_Cons fire_def)
  next
    case (Clock t)
    with Cons show ?thesis by (auto simp: seen_def kills_by_Cons fire_def)
  qed
qed

lemma relay_kills_Exec:
  "kills_by Exec_ctx p (fst (relay fl s es)) =
     (if \<not> ctx_done cmd_ctx s \<and> list_ex cancels_cmd (seen es) then 1 else 0)"
proof (induction es arbitrary: s)
  case Nil
  show ?case by (simp add: seen_def)
next
  case (Cons ev es)
  show ?case
  proof (cases ev)
    case (Read n err ok)
    with Cons show ?thesis by (auto simp: seen_def kills_by_Cons)
  next
    case Request_done
    with Cons show ?thesis
      by (cases p) (auto simp: seen_def kills_by_Cons fire_def cmd_ctx_def)
  next
    case (Clock t)
    with Cons show ?thesis
      by (cases p) (auto simp: seen_def kills_by_Cons fire_def cmd_ctx_def)
  qed
qed

text \<open>The handlers once setup has succeeded.\<close>

lemma streamHandler_ok:
  "setup_ok e \<Longrightarrow>
   streamHandler e =
     (stream_headers
      @ [StdoutPipe Ytdlp True, Start Ytdlp ''yt-dlp'' (ytdlpArgs (url_param e)) True,
         StdoutPipe Ffmpeg True, Start Ffmpeg ''ffmpeg'' ffmpegArgs True, Go_watcher]
      @ fst (relay (is_flusher e) start_signals (script e))
      @ (if snd (relay (is_flusher e) start_signals (script e)) = Break
           then [Wait Ffmpeg, Wait Ytdlp] else []),
      snd (relay (is_flusher e) start_signals (script e)) \<noteq> Blocked)"
  by (simp add: setup_ok_def streamHandler_def split: prod.split)

lemma StreamFromURL_ok:
  "setup_ok e \<Longrightarrow>
   StreamFromURL ctx e =
     (stream_headers
      @ [StdoutPipe Ytdlp True, StdoutPipe Ffmpeg True,
         Start Ytdlp ''yt-dlp'' (ytdlpArgs_streamer (url_param e)) True,
         Start Ffmpeg ''ffmpeg'' ffmpegArgs True, Go_watcher]
      @ fst (relay_streamer ctx (is_flusher e) start_signals (script e))
      @ (if snd (relay_streamer ctx (is_flusher e) start_signals (script e)) = Broke
           then [Wait Ffmpeg, Wait Ytdlp] else []),
      case snd (relay_streamer ctx (is_flusher e) start_signals (script e)) of
        Broke \<Rightarrow> Some None
      | Returned err \<Rightarrow> Some err
      | Blocked_in_read \<Rightarrow> None)"
  by (simp add: setup_ok_def StreamFromURL_def valid_same split: prod.split)

lemma streamHandler_cookies_ok:
  "setup_ok e \<Longrightarrow> debug_off e \<Longrightarrow>
   streamHandler_cookies y f c e =
     (stream_headers_cookies
      @ [Log ''Starting stream for: %s'' [], StdoutPipe Ytdlp True, StdoutPipe Ffmpeg True,
         Start Ytdlp y (ytdlpArgs_cookies c (url_param e)) True,
         Start Ffmpeg f ffmpegArgs_cookies True, Log ''Streaming: %s'' [], Go_watcher]
      @ fst (relay_cookies (is_flusher e) start_signals 0 (script e))
      @ (if fst (snd (relay_cookies (is_flusher e) start_signals 0 (script e))) = Break then
           [Wait Ffmpeg, Wait Ytdlp]
           @ (if stderr_nonempty e Ytdlp then [Log ''yt-dlp stderr: %s'' []] else [])
           @ (if stderr_nonempty e Ffmpeg then [Log ''ffmpeg stderr: %s'' []] else [])
           @ (if snd (snd (relay_cookies (is_flusher e) start_signals 0 (script e))) = 0
                then [Log ''WARNING: Stream completed but sent 0 bytes!'' []] else [])
           @ [Log ''Stream done: %s (%d bytes)''
                [snd (snd (relay_cookies (is_flusher e) start_signals 0 (script e)))]]
         else []),
      fst (snd (relay_cookies (is_flusher e) start_signals 0 (script e))) \<noteq> Blocked)"
  by (simp add: setup_ok_def debug_off_def streamHandler_cookies_def Let_def
      split: prod.split)

lemma healthy_setup_ok: "isYouTubeURL u \<Longrightarrow> u \<noteq> [] \<Longrightarrow> setup_ok (healthy_env u es)"
  by (simp add: setup_ok_def healthy_env_def)

lemma setup_ok_script [simp]: "setup_ok (e\<lparr>script := es\<rparr>) = setup_ok e"
  by (simp add: setup_ok_def)

lemma debug_off_script [simp]: "debug_off (e\<lparr>script := es\<rparr>) = debug_off e"
  by (simp add: debug_off_def)

lemma healthy_debug_off: "debug_off (healthy_env u es)"
  by (simp add: debug_off_def healthy_env_def)

text \<open>Sample inputs of the validator.\<close>

lemma decoy_example: "\<not> isYouTubeURL ''https://youtube.com.evil.example/watch?v=x''"
  by code_simp

subsection \<open>Setup failures\<close>

text \<open>
  Claim C1. When the transcoder fails to start after the extractor was started, the
  handler kills the extractor before it reports the failure: in the trace of
  \<open>main.go\<close>'s handler, and in that of the variant with a credentials file, the
  handler's \<open>Kill\<close> of the extractor comes before the first \<open>http.Error\<close>, the extractor
  was running until that \<open>Kill\<close>, no process is running at the end, exactly one
  \<open>http.Error\<close> is issued, and the handler returns.
\<close>

theorem transcoder_start_failure_kills_extractor:
  assumes "url_param e \<noteq> []" and "isYouTubeURL (url_param e)"
    and "debug_param e \<noteq> ''1''" and "debug_param e \<noteq> ''true''"
    and "pipe_ok e Ytdlp" and "pipe_ok e Ffmpeg"
    and "start_ok e Ytdlp" and "\<not> start_ok e Ffmpeg"
  shows "precedes (Kill Handler Ytdlp) is_HttpError (fst (streamHandler e))
       \<and> Ytdlp \<in> running (takeWhile (\<lambda>a. a \<noteq> Kill Handler Ytdlp) (fst (streamHandler e))) {}
       \<and> running (fst (streamHandler e)) {} = {}
       \<and> length (filter is_HttpError (fst (streamHandler e))) = 1
       \<and> snd (streamHandler e)
       \<and> precedes (Kill Handler Ytdlp) is_HttpError (fst (streamHandler_cookies y f c e))
       \<and> Ytdlp \<in> running (takeWhile (\<lambda>a. a \<noteq> Kill Handler Ytdlp)
                     (fst (streamHandler_cookies y f c e))) {}
       \<and> running (fst (streamHandler_cookies y f c e)) {} = {}
       \<and> length (filter is_HttpError (fst (streamHandler_cookies y f c e))) = 1
       \<and> snd (streamHandler_cookies y f c e)"
  using assms
  by (simp add: streamHandler_def streamHandler_cookies_def stream_headers_def
      stream_headers_cookies_def precedes_def)

theorem transcoder_start_failure_witness:
  "isYouTubeURL ''https://youtu.be/abc123''
   \<and> \<not> start_ok ((healthy_env ''https://youtu.be/abc123'' [])\<lparr>start_ok := (\<lambda>p. p = Ytdlp)\<rparr>)
          Ffmpeg
   \<and> precedes (Kill Handler Ytdlp) is_HttpError
       (fst (streamHandler
          ((healthy_env ''https://youtu.be/abc123'' [])\<lparr>start_ok := (\<lambda>p. p = Ytdlp)\<rparr>)))
   \<and> running
       (fst (streamHandler
          ((healthy_env ''https://youtu.be/abc123'' [])\<lparr>start_ok := (\<lambda>p. p = Ytdlp)\<rparr>))) {}
     = {}
   \<and> running
       (fst (streamHandler_cookies ''yt-dlp'' ''ffmpeg'' ''cookies.txt''
          ((healthy_env ''https://youtu.be/abc123'' [])\<lparr>start_ok := (\<lambda>p. p = Ytdlp)\<rparr>))) {}
     = {}"
  using transcoder_start_failure_kills_extractor
      [of "(healthy_env ''https://youtu.be/abc123'' [])\<lparr>start_ok := (\<lambda>p. p = Ytdlp)\<rparr>"
          "''yt-dlp''" "''ffmpeg''" "''cookies.txt''"]
    valid_example
  by (simp add: healthy_env_def)

subsection \<open>A failing write\<close>

text \<open>
  In the variant that counts bytes, a write that fails ends the handler at once: after
  the events that kept the loop running, the trace goes on with the failed write, the
  log line, the two kills and nothing else. \<open>total\<close> was raised before the write was
  tried, so the log line reports the bytes relayed plus the chunk that was not.
\<close>

lemma client_left_report:
  assumes "setup_ok e" and "debug_off e" and "script e = pre @ Read n err False # es"
    and "list_all keeps_running pre" and "0 < n"
  shows "fst (streamHandler_cookies y f c e)
           = fst (streamHandler_cookies y f c (e\<lparr>script := pre\<rparr>))
             @ [Write n False,
                Log ''Client left after %d bytes'' [sum_list (map read_bytes pre) + n],
                Kill Handler Ytdlp, Kill Handler Ffmpeg]
       \<and> snd (streamHandler_cookies y f c e)
       \<and> bytes_relayed (fst (streamHandler_cookies y f c e)) = sum_list (map read_bytes pre)"
proof -
  have ok1: "setup_ok (e\<lparr>script := pre\<rparr>)" and off1: "debug_off (e\<lparr>script := pre\<rparr>)"
    using assms(1,2) by simp_all
  show ?thesis
    using assms(3-5)
    by (simp add: streamHandler_cookies_ok [OF assms(1,2)]
        streamHandler_cookies_ok [OF ok1 off1]
        relay_cookies_append relay_cookies_blocked relay_cookies_bytes
        stream_headers_cookies_def stream_headers_def)
qed

theorem client_left_report_witness:
  "setup_ok (healthy_env ''https://youtu.be/abc123''
      [Read 3 No_error True, Read 2 No_error False])
   \<and> bytes_relayed (fst (streamHandler_cookies ''yt-dlp'' ''ffmpeg'' []
        (healthy_env ''https://youtu.be/abc123''
           [Read 3 No_error True, Read 2 No_error False]))) = 3"
proof -
  let ?e = "healthy_env ''https://youtu.be/abc123'' [Read 3 No_error True, Read 2 No_error False]"
  have ok: "setup_ok ?e"
    by (rule healthy_setup_ok [OF valid_example]) simp
  have scr: "script ?e = [Read 3 No_error True] @ Read 2 No_error False # []"
    by (simp add: healthy_env_def)
  have kr: "list_all keeps_running [Read 3 No_error True]"
    by simp
  note th = client_left_report [OF ok healthy_debug_off scr kr, of "''yt-dlp''" "''ffmpeg''" "[]"]
  have b: "bytes_relayed (fst (streamHandler_cookies ''yt-dlp'' ''ffmpeg'' [] ?e)) = 3"
    using th [THEN conjunct2, THEN conjunct2] by simp
  from ok b show ?thesis by simp
qed

text \<open>
  Claim C2, at the input where the code departs from it. The transcoder's output is
  read twice, 3 bytes and then 2; the first write succeeds and the second fails. The
  handler returns at once and both processes are killed, as the claim says; 3 bytes
  were relayed, but the byte count the handler reports is 5.
\<close>

theorem client_left_count_includes_failed_chunk:
  "snd (streamHandler_cookies ''yt-dlp'' ''ffmpeg'' []
          (healthy_env ''https://youtu.be/abc123''
             [Read 3 No_error True, Read 2 No_error False]))
   \<and> bytes_relayed (fst (streamHandler_cookies ''yt-dlp'' ''ffmpeg'' []
          (healthy_env ''https://youtu.be/abc123''
             [Read 3 No_error True, Read 2 No_error False]))) = 3
   \<and> reported_client_left (fst (streamHandler_cookies ''yt-dlp'' ''ffmpeg'' []
          (healthy_env ''https://youtu.be/abc123''
             [Read 3 No_error True, Read 2 No_error False]))) = Some 5
   \<and> kills_by Handler Ytdlp (fst (streamHandler_cookies ''yt-dlp'' ''ffmpeg'' []
          (healthy_env ''https://youtu.be/abc123''
             [Read 3 No_error True, Read 2 No_error False]))) = 1
   \<and> kills_by Handler Ffmpeg (fst (streamHandler_cookies ''yt-dlp'' ''ffmpeg'' []
          (healthy_env ''https://youtu.be/abc123''
             [Read 3 No_error True, Read 2 No_error False]))) = 1
   \<and> running (fst (streamHandler_cookies ''yt-dlp'' ''ffmpeg'' []
          (healthy_env ''https://youtu.be/abc123''
             [Read 3 No_error True, Read 2 No_error False]))) {} = {}"
  using valid_example
  by (simp add: streamHandler_cookies_def healthy_env_def stream_headers_cookies_def
      stream_headers_def start_signals_def Let_def prepend_def insert_Diff_if kills_by_def)

subsection \<open>The deadline\<close>

text \<open>
  Claim C3, at the input where the code departs from it. \<open>main.go\<close> makes both
  commands with the context that times out after 45 seconds. A stream that has relayed
  4096 bytes and whose client is still there loses both processes when the clock
  reaches 45: \<open>os/exec\<close> kills them. One second earlier both are running, and in the
  variant whose commands use the request's context they are still running at 45.
\<close>

theorem deadline_kills_running_stream:
  "bytes_relayed (fst (streamHandler
      (healthy_env ''https://youtu.be/abc123'' [Read 4096 No_error True, Clock 45]))) = 4096
   \<and> precedes (Write 4096 True) (\<lambda>a. a = Kill Exec_ctx Ffmpeg) (fst (streamHandler
      (healthy_env ''https://youtu.be/abc123'' [Read 4096 No_error True, Clock 45])))
   \<and> kills_by Exec_ctx Ytdlp (fst (streamHandler
      (healthy_env ''https://youtu.be/abc123'' [Read 4096 No_error True, Clock 45]))) = 1
   \<and> kills_by Exec_ctx Ffmpeg (fst (streamHandler
      (healthy_env ''https://youtu.be/abc123'' [Read 4096 No_error True, Clock 45]))) = 1
   \<and> running (fst (streamHandler
      (healthy_env ''https://youtu.be/abc123'' [Read 4096 No_error True, Clock 45]))) {} = {}
   \<and> running (fst (streamHandler
      (healthy_env ''https://youtu.be/abc123'' [Read 4096 No_error True, Clock 44]))) {}
       = {Ytdlp, Ffmpeg}
   \<and> running (fst (streamHandler_cookies ''yt-dlp'' ''ffmpeg'' []
      (healthy_env ''https://youtu.be/abc123'' [Read 4096 No_error True, Clock 45]))) {}
       = {Ytdlp, Ffmpeg}"
  using valid_example
  by (simp add: streamHandler_def streamHandler_cookies_def healthy_env_def
      stream_headers_cookies_def stream_headers_def start_signals_def fire_def cmd_ctx_def
      precedes_def kills_by_def insert_commute Let_def prepend_def insert_Diff_if)

text \<open>
  The variant whose commands and goroutine use the request's context has no deadline:
  as long as the request is not cancelled, neither \<open>os/exec\<close> nor the goroutine kills
  a process, whatever the clock says.
\<close>

lemma relay_cookies_no_deadline:
  "Request_done \<notin> set es \<Longrightarrow>
   kills_by Exec_ctx p (fst (relay_cookies fl s t es)) = 0
   \<and> kills_by Watcher p (fst (relay_cookies fl s t es)) = 0"
proof (induction es arbitrary: s t)
  case Nil
  show ?case by simp
next
  case (Cons ev es)
  then show ?case
    by (cases ev) (auto simp: kills_by_Cons fire_def)
qed

theorem no_deadline_with_request_context:
  assumes "setup_ok e" and "debug_off e" and "Request_done \<notin> set (script e)"
  shows "kills_by Exec_ctx p (fst (streamHandler_cookies y f c e)) = 0
       \<and> kills_by Watcher p (fst (streamHandler_cookies y f c e)) = 0"
  using assms relay_cookies_no_deadline [of "script e" p "is_flusher e" start_signals 0]
  by (simp add: streamHandler_cookies_ok stream_headers_cookies_def stream_headers_def
      kills_by_Cons)

theorem no_deadline_witness:
  "setup_ok (healthy_env ''https://youtu.be/abc123''
      [Read 4096 No_error True, Clock 45, Clock 86400, Read 4096 No_error True])
   \<and> kills_by Exec_ctx Ffmpeg (fst (streamHandler_cookies ''yt-dlp'' ''ffmpeg'' []
        (healthy_env ''https://youtu.be/abc123''
           [Read 4096 No_error True, Clock 45, Clock 86400, Read 4096 No_error True]))) = 0"
  using no_deadline_with_request_context
      [of "healthy_env ''https://youtu.be/abc123''
             [Read 4096 No_error True, Clock 45, Clock 86400, Read 4096 No_error True]"
          Ffmpeg "''yt-dlp''" "''ffmpeg''" "[]"]
    healthy_setup_ok [OF valid_example,
      of "[Read 4096 No_error True, Clock 45, Clock 86400, Read 4096 No_error True]"]
    healthy_debug_off
  by (simp add: healthy_env_def)

subsection \<open>How often a process is killed\<close>

text \<open>
  How the loop of \<open>main.go\<close> ends, and what the signals are by then.
\<close>

lemma relay_returns_iff:
  "snd (relay fl s es) = Return_in_loop \<longleftrightarrow> write_fails es"
proof (induction es arbitrary: s)
  case Nil
  show ?case by (simp add: write_fails_def)
next
  case (Cons ev es)
  show ?case
  proof (cases ev)
    case (Read n err ok)
    with Cons show ?thesis by (simp add: write_fails_def)
  next
    case Request_done
    with Cons show ?thesis by (simp add: write_fails_def)
  next
    case (Clock t)
    with Cons show ?thesis by (simp add: write_fails_def)
  qed
qed

lemma gone_deliver: "gone (deliver ev s) = (gone s \<or> ev = Request_done)"
  by (cases ev) simp_all

lemma cmd_done_deliver:
  "ctx_done cmd_ctx (deliver ev s) = (ctx_done cmd_ctx s \<or> cancels_cmd ev)"
  by (cases ev) (simp_all add: cmd_ctx_def le_max_iff_disj)

lemma gone_fold: "gone (fold deliver es s) = (gone s \<or> Request_done \<in> set es)"
proof (induction es arbitrary: s)
  case Nil
  show ?case by simp
next
  case (Cons ev es)
  have "gone (fold deliver (ev # es) s) = (gone (deliver ev s) \<or> Request_done \<in> set es)"
    using Cons [of "deliver ev s"] by simp
  then show ?case
    by (simp only: gone_deliver set_simps insert_iff disj_assoc) blast
qed

lemma cmd_done_fold:
  "ctx_done cmd_ctx (fold deliver es s) = (ctx_done cmd_ctx s \<or> list_ex cancels_cmd es)"
proof (induction es arbitrary: s)
  case Nil
  show ?case by simp
next
  case (Cons ev es)
  have "ctx_done cmd_ctx (fold deliver (ev # es) s)
          = (ctx_done cmd_ctx (deliver ev s) \<or> list_ex cancels_cmd es)"
    using Cons [of "deliver ev s"] by simp
  then show ?case
    by (simp only: cmd_done_deliver list_ex_Cons_iff disj_assoc)
qed

lemma kills_by_exec_kills:
  "kills_by k p (exec_kills ps) = (if k = Exec_ctx then count_list ps p else 0)"
  by (induction ps) (simp_all add: exec_kills_def kills_by_Cons)

lemma kills_by_watcher_kills:
  "kills_by k p watcher_kills = (if k = Watcher then 1 else 0)"
  by (cases p) (simp_all add: watcher_kills_def kills_by_Cons)

lemma kills_by_fire:
  "kills_by k p (fire c s s' body)
     = (if \<not> ctx_done c s \<and> ctx_done c s' then kills_by k p body else 0)"
  by (simp add: fire_def)

lemma waiting_Handler: "kills_by Handler p (waiting ps s w) = 0"
  by (induction w arbitrary: s)
    (simp_all add: kills_by_fire kills_by_exec_kills kills_by_watcher_kills)

lemma waiting_Watcher:
  "kills_by Watcher p (waiting ps s w)
     = (if \<not> gone s \<and> Request_done \<in> set w then 1 else 0)"
proof (induction w arbitrary: s)
  case Nil
  show ?case by simp
next
  case (Cons ev w)
  have "kills_by Watcher p (waiting ps s (ev # w))
          = (if \<not> gone s \<and> gone (deliver ev s) then 1 else 0)
            + (if \<not> gone (deliver ev s) \<and> Request_done \<in> set w then 1 else 0)"
    using Cons [of "deliver ev s"]
    by (simp add: kills_by_fire kills_by_exec_kills kills_by_watcher_kills)
  then show ?case
    by (simp add: gone_deliver)
qed

lemma waiting_Exec:
  "kills_by Exec_ctx p (waiting ps s w)
     = (if \<not> ctx_done cmd_ctx s \<and> list_ex cancels_cmd w then count_list ps p else 0)"
proof (induction w arbitrary: s)
  case Nil
  show ?case by simp
next
  case (Cons ev w)
  have "kills_by Exec_ctx p (waiting ps s (ev # w))
          = (if \<not> ctx_done cmd_ctx s \<and> ctx_done cmd_ctx (deliver ev s)
               then count_list ps p else 0)
            + (if \<not> ctx_done cmd_ctx (deliver ev s) \<and> list_ex cancels_cmd w
                 then count_list ps p else 0)"
    using Cons [of "deliver ev s"]
    by (simp add: kills_by_fire kills_by_exec_kills kills_by_watcher_kills)
  then show ?case
    by (simp add: cmd_done_deliver)
qed

lemma relay_no_wait: "Wait p \<notin> set (fst (relay fl s es))"
proof (induction es arbitrary: s)
  case Nil
  show ?case by simp
next
  case (Cons ev es)
  then show ?case by (cases ev) (simp_all add: fire_def)
qed

lemma lifetime_returned:
  assumes "setup_ok e" and "write_fails (script e)"
  shows "streamHandler_lifetime e w1 w2 =
           fst (streamHandler e)
           @ (if ctx_done cmd_ctx (fold deliver (seen (script e)) start_signals) then []
              else exec_kills [Ytdlp, Ffmpeg])
           @ (if gone (fold deliver (seen (script e)) start_signals) then []
              else watcher_kills)"
proof -
  have ex: "snd (relay (is_flusher e) start_signals (script e)) = Return_in_loop"
    using assms(2) by (simp add: relay_returns_iff)
  show ?thesis
    using assms(1) ex
    by (simp add: streamHandler_lifetime_def streamHandler_ok at_return_def unwaited_def
        stream_headers_def relay_no_wait Let_def case_prod_beta)
qed

lemma lifetime_break:
  assumes "setup_ok e" and "\<not> write_fails (script e)" and "snd (streamHandler e)"
  shows "streamHandler_lifetime e w1 w2 =
           stream_headers
           @ [StdoutPipe Ytdlp True, Start Ytdlp ''yt-dlp'' (ytdlpArgs (url_param e)) True,
              StdoutPipe Ffmpeg True, Start Ffmpeg ''ffmpeg'' ffmpegArgs True, Go_watcher]
           @ fst (relay (is_flusher e) start_signals (script e))
           @ waiting [Ytdlp, Ffmpeg] (fold deliver (seen (script e)) start_signals) w1
           @ [Wait Ffmpeg]
           @ waiting [Ytdlp] (fold deliver (seen (script e) @ w1) start_signals) w2
           @ [Wait Ytdlp]
           @ (if gone (fold deliver (seen (script e) @ w1 @ w2) start_signals) then []
              else watcher_kills)"
proof -
  have nb: "snd (relay (is_flusher e) start_signals (script e)) \<noteq> Blocked"
    using assms(1,3) by (simp add: streamHandler_ok)
  have nr: "snd (relay (is_flusher e) start_signals (script e)) \<noteq> Return_in_loop"
    using assms(2) by (simp add: relay_returns_iff)
  from nb nr have ex: "snd (relay (is_flusher e) start_signals (script e)) = Break"
    by (cases "snd (relay (is_flusher e) start_signals (script e))") simp_all
  show ?thesis
    using assms(1) ex
    by (simp add: streamHandler_lifetime_def at_return_def unwaited_def exec_kills_def
        stream_headers_def Let_def case_prod_beta)
qed

lemma lifetime_kills_returned:
  assumes "setup_ok e" and "write_fails (script e)"
  shows "kills_by Watcher p (streamHandler_lifetime e w1 w2) = 1"
    and "kills_by Handler p (streamHandler_lifetime e w1 w2) = 1"
    and "kills_by Exec_ctx p (streamHandler_lifetime e w1 w2) = 1"
proof -
  note L = lifetime_returned [OF assms, of w1 w2]
  note H = streamHandler_ok [OF assms(1)]
  have sg: "\<not> gone start_signals" and sc: "\<not> ctx_done cmd_ctx start_signals"
    by (simp_all add: start_signals_def cmd_ctx_def)
  have ret: "snd (relay (is_flusher e) start_signals (script e)) \<noteq> Break"
    using assms(2) relay_returns_iff [of "is_flusher e" start_signals "script e"] by simp
  show "kills_by Watcher p (streamHandler_lifetime e w1 w2) = 1"
    using ret sg
    by (simp add: L H relay_kills_Watcher gone_fold kills_by_exec_kills
        kills_by_watcher_kills kills_by_Cons stream_headers_def)
  show "kills_by Handler p (streamHandler_lifetime e w1 w2) = 1"
    using ret assms(2)
    by (simp add: L H relay_kills_Handler kills_by_exec_kills
        kills_by_watcher_kills kills_by_Cons stream_headers_def)
  show "kills_by Exec_ctx p (streamHandler_lifetime e w1 w2) = 1"
    using ret sc
    by (cases p)
      (simp_all add: L H relay_kills_Exec cmd_done_fold kills_by_exec_kills
        kills_by_watcher_kills kills_by_Cons stream_headers_def)
qed

lemma lifetime_kills_break:
  assumes "setup_ok e" and "\<not> write_fails (script e)" and "snd (streamHandler e)"
  shows "kills_by Watcher p (streamHandler_lifetime e w1 w2) = 1"
    and "kills_by Handler p (streamHandler_lifetime e w1 w2) = 0"
    and "kills_by Exec_ctx Ytdlp (streamHandler_lifetime e w1 w2)
           = (if list_ex cancels_cmd (seen (script e) @ w1 @ w2) then 1 else 0)"
    and "kills_by Exec_ctx Ffmpeg (streamHandler_lifetime e w1 w2)
           = (if list_ex cancels_cmd (seen (script e) @ w1) then 1 else 0)"
proof -
  note L = lifetime_break [OF assms, of w1 w2]
  have sg: "\<not> gone start_signals" and sc: "\<not> ctx_done cmd_ctx start_signals"
    by (simp_all add: start_signals_def cmd_ctx_def)
  show "kills_by Watcher p (streamHandler_lifetime e w1 w2) = 1"
    using sg
    by (simp add: L kills_by_Cons stream_headers_def relay_kills_Watcher waiting_Watcher
        gone_fold kills_by_watcher_kills)
  show "kills_by Handler p (streamHandler_lifetime e w1 w2) = 0"
    using assms(2)
    by (simp add: L kills_by_Cons stream_headers_def relay_kills_Handler waiting_Handler
        kills_by_watcher_kills)
  show "kills_by Exec_ctx Ytdlp (streamHandler_lifetime e w1 w2)
           = (if list_ex cancels_cmd (seen (script e) @ w1 @ w2) then 1 else 0)"
    using sc
    by (simp add: L kills_by_Cons stream_headers_def relay_kills_Exec waiting_Exec
        cmd_done_fold kills_by_watcher_kills)
  show "kills_by Exec_ctx Ffmpeg (streamHandler_lifetime e w1 w2)
           = (if list_ex cancels_cmd (seen (script e) @ w1) then 1 else 0)"
    using sc
    by (simp add: L kills_by_Cons stream_headers_def relay_kills_Exec waiting_Exec
        cmd_done_fold kills_by_watcher_kills)
qed

lemma waiting_no_wait: "Wait p \<notin> set (waiting ps s w)"
  by (induction w arbitrary: s) (auto simp: fire_def exec_kills_def watcher_kills_def)

lemma kills_append: "kills p (tr @ tr') = kills p tr + kills p tr'"
  by (simp add: kills_def)

lemma late_kills_at:
  "Wait p \<notin> set xs \<Longrightarrow> late_kills p (xs @ Wait p # ys) = kills p ys"
  by (simp add: late_kills_def dropWhile_append)

lemma lifetime_late_kills:
  assumes "setup_ok e" and "\<not> write_fails (script e)" and "snd (streamHandler e)"
    and "Request_done \<notin> set (seen (script e) @ w1 @ w2)"
  shows "late_kills p (streamHandler_lifetime e w1 w2) = 1"
proof -
  let ?A = "stream_headers
           @ [StdoutPipe Ytdlp True, Start Ytdlp ''yt-dlp'' (ytdlpArgs (url_param e)) True,
              StdoutPipe Ffmpeg True, Start Ffmpeg ''ffmpeg'' ffmpegArgs True, Go_watcher]
           @ fst (relay (is_flusher e) start_signals (script e))"
  let ?s = "fold deliver (seen (script e)) start_signals"
  let ?K1 = "waiting [Ytdlp, Ffmpeg] ?s w1"
  let ?K2 = "waiting [Ytdlp] (fold deliver (seen (script e) @ w1) start_signals) w2"
  have sg: "\<not> gone start_signals"
    by (simp add: start_signals_def)
  have ng: "\<not> gone (fold deliver (seen (script e) @ w1 @ w2) start_signals)"
    using assms(4) sg by (simp only: gone_fold) simp
  have L: "streamHandler_lifetime e w1 w2
             = ?A @ ?K1 @ [Wait Ffmpeg] @ ?K2 @ [Wait Ytdlp] @ watcher_kills"
    using lifetime_break [OF assms(1-3), of w1 w2] ng by simp
  have nwA: "Wait q \<notin> set ?A" for q
    by (simp add: stream_headers_def relay_no_wait)
  have k2: "kills Ffmpeg ?K2 = 0"
    using assms(4) by (simp add: kills_def waiting_Handler waiting_Watcher waiting_Exec)
  have wk: "kills q watcher_kills = 1" for q
    by (simp add: kills_def kills_by_watcher_kills)
  show ?thesis
  proof (cases p)
    case Ytdlp
    have eq: "streamHandler_lifetime e w1 w2
            = (?A @ ?K1 @ [Wait Ffmpeg] @ ?K2) @ Wait Ytdlp # watcher_kills"
      by (simp add: L)
    have nw: "Wait Ytdlp \<notin> set (?A @ ?K1 @ [Wait Ffmpeg] @ ?K2)"
      using nwA [of Ytdlp] by (simp add: waiting_no_wait)
    have "late_kills Ytdlp (streamHandler_lifetime e w1 w2) = kills Ytdlp watcher_kills"
      unfolding eq by (rule late_kills_at [OF nw])
    then show ?thesis
      using Ytdlp wk [of Ytdlp] by simp
  next
    case Ffmpeg
    have eq: "streamHandler_lifetime e w1 w2
            = (?A @ ?K1) @ Wait Ffmpeg # (?K2 @ [Wait Ytdlp] @ watcher_kills)"
      by (simp add: L)
    have nw: "Wait Ffmpeg \<notin> set (?A @ ?K1)"
      using nwA [of Ffmpeg] by (simp add: waiting_no_wait)
    have "late_kills Ffmpeg (streamHandler_lifetime e w1 w2)
            = kills Ffmpeg (?K2 @ [Wait Ytdlp] @ watcher_kills)"
      unfolding eq by (rule late_kills_at [OF nw])
    then show ?thesis
      using Ffmpeg k2 wk [of Ffmpeg]
      by (simp add: kills_append kills_def kills_by_Cons)
  qed
qed

text \<open>
  When nothing arrives during the two \<open>Wait\<close>s, the trace of the whole request is the
  trace of the handler followed by what its return sets off.
\<close>

lemma lifetime_extends_handler:
  "streamHandler_lifetime e [] [] =
     fst (streamHandler e)
     @ (if snd (streamHandler e)
          then at_return (fst (streamHandler e))
                 (if setup_ok e then fold deliver (seen (script e)) start_signals
                  else start_signals)
        else [])"
proof (cases "setup_ok e")
  case False
  then have "snd (streamHandler e)"
    by (auto simp: setup_ok_def streamHandler_def Let_def)
  with False show ?thesis
    by (simp add: streamHandler_lifetime_def)
next
  case True
  show ?thesis
    using True
    by (cases "snd (relay (is_flusher e) start_signals (script e))")
      (simp_all add: streamHandler_lifetime_def streamHandler_ok Let_def case_prod_beta)
qed

text \<open>
  Whatever arrives during the two \<open>Wait\<close>s, the handler's own actions in the trace of
  the whole request are those of \<open>streamHandler\<close>, in the same order.
\<close>

lemma waiting_own_actions: "filter own_action (waiting ps s w) = []"
  by (induction w arbitrary: s) (simp_all add: fire_def exec_kills_def watcher_kills_def)

lemma at_return_own_actions: "filter own_action (at_return tr s) = []"
  by (simp add: at_return_def exec_kills_def watcher_kills_def)

lemma lifetime_own_actions:
  "filter own_action (streamHandler_lifetime e w1 w2) = filter own_action (fst (streamHandler e))"
proof (cases "setup_ok e")
  case False
  then show ?thesis
    by (simp add: streamHandler_lifetime_def at_return_own_actions)
next
  case True
  show ?thesis
    using True
    by (cases "snd (relay (is_flusher e) start_signals (script e))")
      (simp_all add: streamHandler_lifetime_def streamHandler_ok Let_def case_prod_beta
        at_return_own_actions waiting_own_actions)
qed

text \<open>
  Claim C4 as stated fails: nothing in \<open>main.go\<close> remembers that a process was killed.
  When the client goes away and the next write fails, the goroutine kills both
  processes, \<open>os/exec\<close> kills both for the cancelled context and the failure path of the
  loop kills both again: three attempts on each process. One trigger is enough: when
  only a write fails, the loop kills both and returns, the deferred \<open>cancel()\<close> makes
  \<open>os/exec\<close> kill both, which were never waited for, and the goroutine kills both when
  the server cancels the request's context.
\<close>

theorem double_kill_counterexample:
  "kills_by Watcher Ytdlp (streamHandler_lifetime
      (healthy_env ''https://youtu.be/abc123'' [Request_done, Read 4096 No_error False])
      [] []) = 1
   \<and> kills_by Handler Ytdlp (streamHandler_lifetime
      (healthy_env ''https://youtu.be/abc123'' [Request_done, Read 4096 No_error False])
      [] []) = 1
   \<and> kills Ytdlp (streamHandler_lifetime
      (healthy_env ''https://youtu.be/abc123'' [Request_done, Read 4096 No_error False])
      [] []) = 3
   \<and> kills Ffmpeg (streamHandler_lifetime
      (healthy_env ''https://youtu.be/abc123'' [Request_done, Read 4096 No_error False])
      [] []) = 3
   \<and> streamHandler_lifetime
        (healthy_env ''https://youtu.be/abc123'' [Read 4096 No_error False]) [] []
      = stream_headers
        @ [StdoutPipe Ytdlp True,
           Start Ytdlp ''yt-dlp'' (ytdlpArgs ''https://youtu.be/abc123'') True,
           StdoutPipe Ffmpeg True, Start Ffmpeg ''ffmpeg'' ffmpegArgs True, Go_watcher,
           Write 4096 False, Kill Handler Ytdlp, Kill Handler Ffmpeg,
           Kill Exec_ctx Ytdlp, Kill Exec_ctx Ffmpeg, Kill Watcher Ytdlp, Kill Watcher Ffmpeg]
   \<and> kills Ytdlp (streamHandler_lifetime
      (healthy_env ''https://youtu.be/abc123'' [Read 4096 No_error False]) [] []) = 3
   \<and> kills Ffmpeg (streamHandler_lifetime
      (healthy_env ''https://youtu.be/abc123'' [Read 4096 No_error False]) [] []) = 3"
proof -
  let ?d = "healthy_env ''https://youtu.be/abc123'' [Request_done, Read 4096 No_error False]"
  let ?e = "healthy_env ''https://youtu.be/abc123'' [Read 4096 No_error False]"
  have s1: "setup_ok ?d"
    by (rule healthy_setup_ok [OF valid_example]) simp
  have s2: "setup_ok ?e"
    by (rule healthy_setup_ok [OF valid_example]) simp
  have w1: "write_fails (script ?d)"
    by (simp add: healthy_env_def write_fails_def)
  have scr: "script ?e = [Read 4096 No_error False]"
    "url_param ?e = ''https://youtu.be/abc123''"
    by (simp_all add: healthy_env_def)
  have w2: "write_fails (script ?e)"
    by (simp add: scr write_fails_def)
  have tr: "streamHandler_lifetime ?e [] []
      = stream_headers
        @ [StdoutPipe Ytdlp True,
           Start Ytdlp ''yt-dlp'' (ytdlpArgs ''https://youtu.be/abc123'') True,
           StdoutPipe Ffmpeg True, Start Ffmpeg ''ffmpeg'' ffmpegArgs True, Go_watcher,
           Write 4096 False, Kill Handler Ytdlp, Kill Handler Ffmpeg,
           Kill Exec_ctx Ytdlp, Kill Exec_ctx Ffmpeg, Kill Watcher Ytdlp, Kill Watcher Ffmpeg]"
    by (simp add: lifetime_returned [OF s2 w2] streamHandler_ok [OF s2] scr seen_def
        start_signals_def cmd_ctx_def exec_kills_def watcher_kills_def)
  have k: "kills_by Watcher Ytdlp (streamHandler_lifetime ?d [] []) = 1
   \<and> kills_by Handler Ytdlp (streamHandler_lifetime ?d [] []) = 1
   \<and> kills Ytdlp (streamHandler_lifetime ?d [] []) = 3
   \<and> kills Ffmpeg (streamHandler_lifetime ?d [] []) = 3
   \<and> kills Ytdlp (streamHandler_lifetime ?e [] []) = 3
   \<and> kills Ffmpeg (streamHandler_lifetime ?e [] []) = 3"
    by (simp add: kills_def lifetime_kills_returned [OF s1 w1]
        lifetime_kills_returned [OF s2 w2])
  from tr k show ?thesis
    by blast
qed

text \<open>
  Claim C4 as amended. Take a request whose setup succeeds and whose handler returns,
  from its first statement until the request's context has been cancelled, \<open>w1\<close> and
  \<open>w2\<close> being the events that arrive during the two \<open>Wait\<close>s. The goroutine kills each
  process exactly once. The loop kills each process once more exactly when a write
  fails. \<open>os/exec\<close> kills a process once more exactly when a write fails, after which
  no \<open>Wait\<close> is called, or the command context is done (cancelled request, or 45
  seconds) before the \<open>Wait\<close> of that process returns: for the transcoder the events of
  the second \<open>Wait\<close> do not count. So each process receives between one and three
  attempts, three whenever a write fails, and the transcoder never more than the
  extractor. When no write fails and the client stays, the one \<open>Kill\<close> of the goroutine
  reaches each process after its \<open>Wait\<close> has returned.
\<close>

theorem kill_attempts_over_lifetime:
  assumes "setup_ok e" and "snd (streamHandler e)"
  shows "kills_by Watcher p (streamHandler_lifetime e w1 w2) = 1
       \<and> kills_by Handler p (streamHandler_lifetime e w1 w2)
           = (if write_fails (script e) then 1 else 0)
       \<and> kills_by Exec_ctx Ytdlp (streamHandler_lifetime e w1 w2)
           = (if write_fails (script e) \<or> list_ex cancels_cmd (seen (script e) @ w1 @ w2)
              then 1 else 0)
       \<and> kills_by Exec_ctx Ffmpeg (streamHandler_lifetime e w1 w2)
           = (if write_fails (script e) \<or> list_ex cancels_cmd (seen (script e) @ w1)
              then 1 else 0)
       \<and> 1 \<le> kills p (streamHandler_lifetime e w1 w2)
       \<and> kills p (streamHandler_lifetime e w1 w2) \<le> 3
       \<and> kills Ffmpeg (streamHandler_lifetime e w1 w2)
           \<le> kills Ytdlp (streamHandler_lifetime e w1 w2)
       \<and> (write_fails (script e) \<longrightarrow> kills p (streamHandler_lifetime e w1 w2) = 3)
       \<and> (\<not> write_fails (script e) \<and> Request_done \<notin> set (seen (script e) @ w1 @ w2)
            \<longrightarrow> late_kills p (streamHandler_lifetime e w1 w2) = 1)"
proof (cases "write_fails (script e)")
  case True
  note K = lifetime_kills_returned [OF assms(1) True]
  show ?thesis
    using True by (simp add: kills_def K)
next
  case False
  note K = lifetime_kills_break [OF assms(1) False assms(2)]
  have ex: "kills_by Exec_ctx p (streamHandler_lifetime e w1 w2) \<le> 1"
    by (cases p) (simp_all add: K)
  have late: "Request_done \<notin> set (seen (script e) @ w1 @ w2)
            \<longrightarrow> late_kills p (streamHandler_lifetime e w1 w2) = 1"
    using lifetime_late_kills [OF assms(1) False assms(2), of w1 w2 p] by blast
  show ?thesis
    using False ex late by (simp add: kills_def K)
qed

theorem kill_attempts_witness:
  "setup_ok (healthy_env ''https://youtu.be/abc123''
      [Read 10 No_error True, Read 10 EOF True])
   \<and> snd (streamHandler (healthy_env ''https://youtu.be/abc123''
      [Read 10 No_error True, Read 10 EOF True]))
   \<and> kills_by Watcher Ffmpeg (streamHandler_lifetime (healthy_env ''https://youtu.be/abc123''
      [Read 10 No_error True, Read 10 EOF True]) [] [Clock 45]) = 1
   \<and> kills_by Exec_ctx Ffmpeg (streamHandler_lifetime (healthy_env ''https://youtu.be/abc123''
      [Read 10 No_error True, Read 10 EOF True]) [] [Clock 45]) = 0
   \<and> kills_by Exec_ctx Ytdlp (streamHandler_lifetime (healthy_env ''https://youtu.be/abc123''
      [Read 10 No_error True, Read 10 EOF True]) [] [Clock 45]) = 1
   \<and> late_kills Ffmpeg (streamHandler_lifetime (healthy_env ''https://youtu.be/abc123''
      [Read 10 No_error True, Read 10 EOF True]) [] [Clock 45]) = 1"
proof -
  let ?e = "healthy_env ''https://youtu.be/abc123'' [Read 10 No_error True, Read 10 EOF True]"
  have ok: "setup_ok ?e"
    by (rule healthy_setup_ok [OF valid_example]) simp
  have scr: "script ?e = [Read 10 No_error True, Read 10 EOF True]"
    by (simp add: healthy_env_def)
  have ret: "snd (streamHandler ?e)"
    by (simp add: streamHandler_ok [OF ok] scr)
  have nf: "\<not> write_fails (script ?e)"
    by (simp add: healthy_env_def write_fails_def)
  have sn: "seen (script ?e) = [Read 10 No_error True]"
    by (simp add: healthy_env_def seen_def)
  note th = kill_attempts_over_lifetime [OF ok ret, of Ffmpeg "[]" "[Clock 45]"]
  from th ok ret nf sn show ?thesis
    by simp
qed

subsection \<open>Read errors and end of stream\<close>

text \<open>
  Claim C5 as stated fails for \<open>main.go\<close>: its handler does the same on a read error
  as on the end of the stream, and it has no result that could tell them apart.
\<close>

theorem main_handler_eof_indistinct:
  "streamHandler (healthy_env ''https://youtu.be/abc123'' [Read 0 Read_error True])
   = streamHandler (healthy_env ''https://youtu.be/abc123'' [Read 0 EOF True])"
  by (simp add: streamHandler_def healthy_env_def Let_def)

text \<open>
  Claim C5 as amended. The loop runs until a read returns an error, \<open>io.EOF\<close> or
  another, together with \<open>n\<close> bytes. \<open>StreamFromURL\<close>: when there are bytes and writing
  them fails, it returns the error \<open>client disconnected\<close>, whatever the read error was.
  Otherwise the bytes, if any, are written and flushed; then on \<open>io.EOF\<close> it waits for
  both processes and returns \<open>nil\<close>, and on any other error it returns the error
  \<open>ffmpeg read\<close> without waiting: the two are told apart. \<open>main.go\<close>'s handler does not
  tell them apart: when there are bytes and writing them fails, it kills both
  processes and returns without waiting; otherwise it writes the bytes, if any, leaves
  the loop, waits for both processes and returns, on \<open>io.EOF\<close> as on any other error.
\<close>

theorem read_error_kinds:
  assumes "setup_ok e" and "script e = pre @ Read n err ok # es"
    and "list_all keeps_running pre" and "err \<noteq> No_error"
  shows "snd (StreamFromURL ctx e)
           = Some (if 0 < n \<and> \<not> ok then Some ''client disconnected''
                   else if err = EOF then None else Some ''ffmpeg read'')
       \<and> fst (StreamFromURL ctx e)
           = fst (StreamFromURL ctx (e\<lparr>script := pre\<rparr>))
             @ (if 0 < n \<and> \<not> ok then [Write n False]
                else (if 0 < n then Write n True # (if is_flusher e then [Flush] else [])
                      else [])
                     @ (if err = EOF then [Wait Ffmpeg, Wait Ytdlp] else []))
       \<and> fst (streamHandler e)
           = fst (streamHandler (e\<lparr>script := pre\<rparr>))
             @ (if 0 < n \<and> \<not> ok
                  then [Write n False, Kill Handler Ytdlp, Kill Handler Ffmpeg]
                else (if 0 < n then Write n True # (if is_flusher e then [Flush] else [])
                      else [])
                     @ [Wait Ffmpeg, Wait Ytdlp])
       \<and> snd (streamHandler e)
       \<and> streamHandler (e\<lparr>script := pre @ Read n Read_error ok # es\<rparr>)
           = streamHandler (e\<lparr>script := pre @ Read n EOF ok # es\<rparr>)"
proof -
  have ok1: "setup_ok (e\<lparr>script := x\<rparr>)" for x
    using assms(1) by simp
  have a: "snd (StreamFromURL ctx e)
           = Some (if 0 < n \<and> \<not> ok then Some ''client disconnected''
                   else if err = EOF then None else Some ''ffmpeg read'')"
    and b: "fst (StreamFromURL ctx e)
           = fst (StreamFromURL ctx (e\<lparr>script := pre\<rparr>))
             @ (if 0 < n \<and> \<not> ok then [Write n False]
                else (if 0 < n then Write n True # (if is_flusher e then [Flush] else [])
                      else [])
                     @ (if err = EOF then [Wait Ffmpeg, Wait Ytdlp] else []))"
    using assms(2-4)
    by (simp_all add: StreamFromURL_ok [OF assms(1)] StreamFromURL_ok [OF ok1]
        relay_streamer_append relay_streamer_blocked Let_def)
  have c: "fst (streamHandler e)
           = fst (streamHandler (e\<lparr>script := pre\<rparr>))
             @ (if 0 < n \<and> \<not> ok
                  then [Write n False, Kill Handler Ytdlp, Kill Handler Ffmpeg]
                else (if 0 < n then Write n True # (if is_flusher e then [Flush] else [])
                      else [])
                     @ [Wait Ffmpeg, Wait Ytdlp])"
    and d: "snd (streamHandler e)"
    using assms(2-4)
    by (simp_all add: streamHandler_ok [OF assms(1)] streamHandler_ok [OF ok1]
        relay_append relay_blocked)
  have f: "streamHandler (e\<lparr>script := pre @ Read n Read_error ok # es\<rparr>)
           = streamHandler (e\<lparr>script := pre @ Read n EOF ok # es\<rparr>)"
    by (simp add: streamHandler_ok [OF ok1]
        relay_blind_to_error_kind [of _ _ pre n ok es es])
  from a b c d f show ?thesis by simp
qed

theorem read_error_kinds_witness:
  "setup_ok (healthy_env ''https://youtu.be/abc123'' [Read 3 No_error True, Read 2 Read_error True])
   \<and> list_all keeps_running [Read 3 No_error True]
   \<and> snd (StreamFromURL cmd_ctx (healthy_env ''https://youtu.be/abc123''
            [Read 3 No_error True, Read 2 Read_error True])) = Some (Some ''ffmpeg read'')
   \<and> snd (streamHandler (healthy_env ''https://youtu.be/abc123''
            [Read 3 No_error True, Read 2 Read_error True]))"
proof -
  let ?e = "healthy_env ''https://youtu.be/abc123''
              [Read 3 No_error True, Read 2 Read_error True]"
  have ok: "setup_ok ?e"
    by (rule healthy_setup_ok [OF valid_example]) simp
  have scr: "script ?e = [Read 3 No_error True] @ Read 2 Read_error True # []"
    by (simp add: healthy_env_def)
  have kr: "list_all keeps_running [Read 3 No_error True]"
    by simp
  have ne: "Read_error \<noteq> No_error"
    by simp
  note th = read_error_kinds [OF ok scr kr ne, of cmd_ctx]
  have r: "snd (StreamFromURL cmd_ctx ?e) = Some (Some ''ffmpeg read'')"
    using th [THEN conjunct1] by simp
  have h: "snd (streamHandler ?e)"
    using th [THEN conjunct2, THEN conjunct2, THEN conjunct2, THEN conjunct1] .
  from ok kr r h show ?thesis by simp
qed

subsection \<open>The validator\<close>

text \<open>
  Claim C6. The validator accepts a string exactly when \<open>url.Parse\<close> returns a URL for
  it whose \<open>Hostname()\<close> is one of the four allowed hosts: a string that does not
  parse, or parses to any other host name, is rejected. For a rejected URL no handler
  starts a process (or runs a command at all): \<open>main.go\<close>'s handler and the variant
  with a credentials file answer 400, and \<open>StreamFromURL\<close> returns its error before
  doing anything. The validator is a function of its argument alone.
\<close>

theorem validator_accepts_iff:
  "(isYouTubeURL u \<longleftrightarrow>
      (\<exists>parsed. url_Parse u = Inr parsed \<and> Hostname parsed \<in> set allowed_hosts))
 \<and> (\<not> isYouTubeURL (url_param e) \<longrightarrow>
       filter is_Start (fst (streamHandler e)) = []
     \<and> response_status (streamHandler e) = Some 400
     \<and> filter is_Start (fst (streamHandler_cookies y f c e)) = []
     \<and> response_status (streamHandler_cookies y f c e) = Some 400
     \<and> StreamFromURL ctx e = ([], Some (Some ''invalid YouTube URL'')))"
proof -
  have a: "isYouTubeURL u \<longleftrightarrow>
      (\<exists>parsed. url_Parse u = Inr parsed \<and> Hostname parsed \<in> set allowed_hosts)"
    by (cases "url_Parse u") (auto simp: isYouTubeURL_def allowed_hosts_def Let_def)
  have b: "\<not> isYouTubeURL (url_param e) \<longrightarrow>
       filter is_Start (fst (streamHandler e)) = []
     \<and> response_status (streamHandler e) = Some 400
     \<and> filter is_Start (fst (streamHandler_cookies y f c e)) = []
     \<and> response_status (streamHandler_cookies y f c e) = Some 400
     \<and> StreamFromURL ctx e = ([], Some (Some ''invalid YouTube URL''))"
    by (simp add: streamHandler_def streamHandler_cookies_def StreamFromURL_def valid_same
        response_status_def Let_def)
  from a b show ?thesis by simp
qed

theorem validator_witness:
  "\<not> isYouTubeURL ''https://youtube.com.evil.example/watch?v=x''
   \<and> \<not> (\<exists>parsed. url_Parse ''https://youtube.com.evil.example/watch?v=x'' = Inr parsed
            \<and> Hostname parsed \<in> set allowed_hosts)
   \<and> filter is_Start
       (fst (streamHandler (healthy_env ''https://youtube.com.evil.example/watch?v=x'' [])))
       = []
   \<and> response_status
       (streamHandler (healthy_env ''https://youtube.com.evil.example/watch?v=x'' []))
       = Some 400"
  using validator_accepts_iff [of "''https://youtube.com.evil.example/watch?v=x''"
               "healthy_env ''https://youtube.com.evil.example/watch?v=x'' []"]
    decoy_example
  by (simp add: healthy_env_def)

text \<open>
  Claim C10. The host name is compared byte for byte: whatever \<open>url.Parse\<close> returns,
  the string is accepted only if its \<open>Hostname()\<close> is literally one of the four.
  \<open>url.Parse\<close> lowers the scheme but leaves the host as written, so
  \<open>https://YouTube.com/x\<close> has the host name \<open>YouTube.com\<close> and is rejected, while
  \<open>https://youtube.com/x\<close> is accepted. A string with no scheme and no \<open>//\<close> is all
  path: \<open>youtube.com/watch?v=x\<close> parses to an empty host and is rejected, while the
  same with \<open>https://\<close> in front is accepted.
\<close>

theorem host_comparison_exact:
  "(\<forall>parsed. url_Parse u = Inr parsed \<longrightarrow>
       (isYouTubeURL u \<longleftrightarrow> Hostname parsed \<in> set allowed_hosts))
 \<and> url_Parse ''https://YouTube.com/x''
     = Inr (new_URL\<lparr>Scheme := ''https'', Host := ''YouTube.com'', Path := ''/x''\<rparr>)
 \<and> \<not> isYouTubeURL ''https://YouTube.com/x''
 \<and> isYouTubeURL ''https://youtube.com/x''
 \<and> url_Parse ''youtube.com/watch?v=x''
     = Inr (new_URL\<lparr>Path := ''youtube.com/watch'', RawQuery := ''v=x''\<rparr>)
 \<and> Hostname (new_URL\<lparr>Path := ''youtube.com/watch'', RawQuery := ''v=x''\<rparr>) = []
 \<and> \<not> isYouTubeURL ''youtube.com/watch?v=x''
 \<and> isYouTubeURL ''https://youtube.com/watch?v=x''"
proof -
  have a: "\<forall>parsed. url_Parse u = Inr parsed \<longrightarrow>
       (isYouTubeURL u \<longleftrightarrow> Hostname parsed \<in> set allowed_hosts)"
    by (auto simp: isYouTubeURL_def allowed_hosts_def Let_def)
  have b: "url_Parse ''https://YouTube.com/x''
     = Inr (new_URL\<lparr>Scheme := ''https'', Host := ''YouTube.com'', Path := ''/x''\<rparr>)"
    by code_simp
  have c: "\<not> isYouTubeURL ''https://YouTube.com/x''"
    by code_simp
  have d: "isYouTubeURL ''https://youtube.com/x''"
    by code_simp
  have e: "url_Parse ''youtube.com/watch?v=x''
     = Inr (new_URL\<lparr>Path := ''youtube.com/watch'', RawQuery := ''v=x''\<rparr>)"
    by code_simp
  have f: "Hostname (new_URL\<lparr>Path := ''youtube.com/watch'', RawQuery := ''v=x''\<rparr>) = []"
    by code_simp
  have g: "\<not> isYouTubeURL ''youtube.com/watch?v=x''"
    by code_simp
  have h: "isYouTubeURL ''https://youtube.com/watch?v=x''"
    by code_simp
  from a b c d e f g h show ?thesis by blast
qed

theorem host_comparison_witness:
  "Hostname (new_URL\<lparr>Scheme := ''https'', Host := ''YouTube.com'', Path := ''/x''\<rparr>)
     = ''YouTube.com''
   \<and> ''YouTube.com'' \<notin> set allowed_hosts
   \<and> \<not> isYouTubeURL ''https://YouTube.com/x''"
proof -
  have h: "Hostname (new_URL\<lparr>Scheme := ''https'', Host := ''YouTube.com'', Path := ''/x''\<rparr>)
     = ''YouTube.com''"
    by code_simp
  have n: "''YouTube.com'' \<notin> set allowed_hosts"
    by (simp add: allowed_hosts_def)
  from host_comparison_exact [of "''https://YouTube.com/x''"] h n show ?thesis by simp
qed

subsection \<open>The argument lists\<close>




subsection \<open>Response status\<close>

text \<open>
  Claim C8 as stated fails: when the transcoder cannot be started, \<open>main.go\<close> answers
  500, which is neither 502 nor 503.
\<close>

theorem setup_failure_status_500:
  "response_status
     (streamHandler ((healthy_env ''https://youtu.be/abc123'' [])\<lparr>start_ok := (\<lambda>p. p = Ytdlp)\<rparr>))
     = Some 500
   \<and> \<not> (response_status
          (streamHandler
             ((healthy_env ''https://youtu.be/abc123'' [])\<lparr>start_ok := (\<lambda>p. p = Ytdlp)\<rparr>))
          = Some 502
        \<or> response_status
          (streamHandler
             ((healthy_env ''https://youtu.be/abc123'' [])\<lparr>start_ok := (\<lambda>p. p = Ytdlp)\<rparr>))
          = Some 503)"
  using valid_example
  by (simp add: streamHandler_def healthy_env_def stream_headers_def response_status_def
      Let_def)

text \<open>
  Claim C8 as amended, for \<open>main.go\<close>'s handler. A missing or rejected URL is answered
  with 400. A setup failure is answered with 503 when the extractor fails to start,
  and with 500 when a pipe cannot be made or the transcoder fails to start. When setup
  succeeds the status is 200, sent with \<open>Content-Type: audio/mpeg\<close>,
  \<open>Cache-Control: no-cache\<close> and \<open>Connection: keep-alive\<close> and no other header of the
  handler's; the one run with no status yet is the one still blocked before its first
  write.
\<close>

theorem response_statuses:
  "(url_param e = [] \<or> \<not> isYouTubeURL (url_param e)
      \<longrightarrow> response_status (streamHandler e) = Some 400)
 \<and> (url_param e \<noteq> [] \<and> isYouTubeURL (url_param e) \<and> \<not> pipe_ok e Ytdlp
      \<longrightarrow> response_status (streamHandler e) = Some 500)
 \<and> (url_param e \<noteq> [] \<and> isYouTubeURL (url_param e) \<and> pipe_ok e Ytdlp \<and> \<not> start_ok e Ytdlp
      \<longrightarrow> response_status (streamHandler e) = Some 503)
 \<and> (url_param e \<noteq> [] \<and> isYouTubeURL (url_param e) \<and> pipe_ok e Ytdlp \<and> start_ok e Ytdlp
      \<and> \<not> pipe_ok e Ffmpeg
      \<longrightarrow> response_status (streamHandler e) = Some 500)
 \<and> (url_param e \<noteq> [] \<and> isYouTubeURL (url_param e) \<and> pipe_ok e Ytdlp \<and> start_ok e Ytdlp
      \<and> pipe_ok e Ffmpeg \<and> \<not> start_ok e Ffmpeg
      \<longrightarrow> response_status (streamHandler e) = Some 500)
 \<and> (setup_ok e
      \<longrightarrow> (response_status (streamHandler e) = Some 200
           \<or> response_status (streamHandler e) = None \<and> \<not> snd (streamHandler e)
              \<and> bytes_relayed (fst (streamHandler e)) = 0)
        \<and> committed_headers (fst (streamHandler e)) Map.empty
            = [''Content-Type'' \<mapsto> ''audio/mpeg'', ''Cache-Control'' \<mapsto> ''no-cache'',
               ''Connection'' \<mapsto> ''keep-alive''])"
proof -
  have bad: "url_param e = [] \<or> \<not> isYouTubeURL (url_param e)
      \<longrightarrow> response_status (streamHandler e) = Some 400"
    by (auto simp: streamHandler_def response_status_def Let_def)
  have pipe1: "url_param e \<noteq> [] \<and> isYouTubeURL (url_param e) \<and> \<not> pipe_ok e Ytdlp
      \<longrightarrow> response_status (streamHandler e) = Some 500"
    by (simp add: streamHandler_def response_status_def stream_headers_def)
  have start1: "url_param e \<noteq> [] \<and> isYouTubeURL (url_param e) \<and> pipe_ok e Ytdlp
      \<and> \<not> start_ok e Ytdlp \<longrightarrow> response_status (streamHandler e) = Some 503"
    by (simp add: streamHandler_def response_status_def stream_headers_def)
  have pipe2: "url_param e \<noteq> [] \<and> isYouTubeURL (url_param e) \<and> pipe_ok e Ytdlp
      \<and> start_ok e Ytdlp \<and> \<not> pipe_ok e Ffmpeg
      \<longrightarrow> response_status (streamHandler e) = Some 500"
    by (simp add: streamHandler_def response_status_def stream_headers_def)
  have start2: "url_param e \<noteq> [] \<and> isYouTubeURL (url_param e) \<and> pipe_ok e Ytdlp
      \<and> start_ok e Ytdlp \<and> pipe_ok e Ffmpeg \<and> \<not> start_ok e Ffmpeg
      \<longrightarrow> response_status (streamHandler e) = Some 500"
    by (simp add: streamHandler_def response_status_def stream_headers_def)
  have ok: "(response_status (streamHandler e) = Some 200
           \<or> response_status (streamHandler e) = None \<and> \<not> snd (streamHandler e)
              \<and> bytes_relayed (fst (streamHandler e)) = 0)
        \<and> committed_headers (fst (streamHandler e)) Map.empty
            = [''Content-Type'' \<mapsto> ''audio/mpeg'', ''Cache-Control'' \<mapsto> ''no-cache'',
               ''Connection'' \<mapsto> ''keep-alive'']" if "setup_ok e"
  proof -
    let ?r = "relay (is_flusher e) start_signals (script e)"
    have st: "committed_status (fst (streamHandler e)) = committed_status (fst ?r)"
      using that
      by (simp add: streamHandler_ok stream_headers_def committed_status_append
          split: option.split)
    have by0: "bytes_relayed (fst (streamHandler e)) = bytes_relayed (fst ?r)"
      using that by (simp add: streamHandler_ok stream_headers_def)
    have ret: "snd (streamHandler e) = (snd ?r \<noteq> Blocked)"
      using that by (simp add: streamHandler_ok)
    have hd: "committed_headers (fst (streamHandler e)) Map.empty
            = [''Content-Type'' \<mapsto> ''audio/mpeg'', ''Cache-Control'' \<mapsto> ''no-cache'',
               ''Connection'' \<mapsto> ''keep-alive'']"
      using that relay_untouched [of "is_flusher e" start_signals "script e"]
      by (simp add: streamHandler_ok stream_headers_def committed_headers_untouched)
    from relay_status [of "is_flusher e" start_signals "script e"]
    have "response_status (streamHandler e) = Some 200
           \<or> response_status (streamHandler e) = None \<and> \<not> snd (streamHandler e)
              \<and> bytes_relayed (fst (streamHandler e)) = 0"
      using st by0 ret no_status_no_bytes [of "fst ?r"]
      by (auto simp: response_status_def)
    with hd show ?thesis by simp
  qed
  from bad pipe1 start1 pipe2 start2 ok show ?thesis by blast
qed

theorem response_statuses_witness:
  "setup_ok (healthy_env ''https://youtu.be/abc123'' [Read 3 No_error True, Read 0 EOF True])
   \<and> response_status (streamHandler
        (healthy_env ''https://youtu.be/abc123'' [Read 3 No_error True, Read 0 EOF True]))
       = Some 200
   \<and> committed_headers (fst (streamHandler
        (healthy_env ''https://youtu.be/abc123'' [Read 3 No_error True, Read 0 EOF True])))
        Map.empty ''Content-Type'' = Some ''audio/mpeg''
   \<and> response_status (streamHandler (healthy_env [] [])) = Some 400
   \<and> response_status (streamHandler
        ((healthy_env ''https://youtu.be/abc123'' [])\<lparr>start_ok := (\<lambda>p. False)\<rparr>)) = Some 503"
proof -
  have ok: "setup_ok (healthy_env ''https://youtu.be/abc123''
              [Read 3 No_error True, Read 0 EOF True])"
    by (rule healthy_setup_ok [OF valid_example]) simp
  have ret: "snd (streamHandler
        (healthy_env ''https://youtu.be/abc123'' [Read 3 No_error True, Read 0 EOF True]))"
    using valid_example by (simp add: streamHandler_def healthy_env_def Let_def prepend_def)
  from response_statuses
         [of "healthy_env ''https://youtu.be/abc123'' [Read 3 No_error True, Read 0 EOF True]"]
    response_statuses [of "healthy_env [] []"]
    response_statuses
         [of "(healthy_env ''https://youtu.be/abc123'' [])\<lparr>start_ok := (\<lambda>p. False)\<rparr>"]
    ok ret valid_example
  show ?thesis by (simp add: healthy_env_def)
qed

subsection \<open>The last chunk\<close>




end
